theory Spec2Isabelle
  imports Complex_Main
begin

section \<open>JavaScript dates\<close>

text \<open>
  The attendance pages (\<^verbatim>\<open>src/app/page.tsx\<close>, the page with the synthetic data, and
  \<^verbatim>\<open>src/app/tmp.tsx\<close>, the page that talks to the remote service) compute with
  JavaScript \<^verbatim>\<open>Date\<close> objects through the \<^verbatim>\<open>date-fns\<close> library. A \<^verbatim>\<open>Date\<close> is its
  time value: the number of milliseconds since the epoch, an integer. The calendar fields
  are the ones ECMAScript derives from the time value (Day, TimeWithinDay, DayFromYear,
  YearFromTime, MonthFromTime, DateFromTime, WeekDay, MakeDay, MakeDate). Local time is
  taken to be a zone with a fixed offset, so the local time value is the time value
  itself; daylight saving changes are outside the model.
\<close>

type_synonym Date = int

definition msPerDay :: int where
  "msPerDay = 86400000"

definition Day :: "Date \<Rightarrow> int" where
  "Day t = t div msPerDay"

definition TimeWithinDay :: "Date \<Rightarrow> int" where
  "TimeWithinDay t = t mod msPerDay"

definition DaysInYear :: "int \<Rightarrow> int" where
  "DaysInYear y =
     (if y mod 4 \<noteq> 0 then 365
      else if y mod 100 \<noteq> 0 then 366
      else if y mod 400 \<noteq> 0 then 365
      else 366)"

definition DayFromYear :: "int \<Rightarrow> int" where
  "DayFromYear y =
     365 * (y - 1970) + (y - 1969) div 4 - (y - 1901) div 100 + (y - 1601) div 400"

text \<open>
  ECMAScript defines YearFromTime as the largest year whose first day is not after the
  given day. \<open>yearFromDay\<close> computes it from the position of the day in the cycle of
  400 years that starts with 1 January 1601 (day \<open>-134774\<close>), so that it can be
  evaluated; \<open>yearFromDay_bounds\<close> and \<open>yearFromDay_unique\<close> below show that it is
  that year.
\<close>

definition yearFromDay :: "int \<Rightarrow> int" where
  "yearFromDay d =
     (let s = d + 134774;
          era = s div 146097;
          doe = s mod 146097;
          c = min 3 (doe div 36524);
          doc = doe - 36524 * c;
          q = doc div 1461;
          doq = doc - 1461 * q;
          r = min 3 (doq div 365)
      in 1601 + 400 * era + 100 * c + 4 * q + r)"

definition YearFromTime :: "Date \<Rightarrow> int" where
  "YearFromTime t = yearFromDay (Day t)"

definition leapDays :: "int \<Rightarrow> int" where
  "leapDays y = (if DaysInYear y = 366 then 1 else 0)"

definition InLeapYear :: "Date \<Rightarrow> int" where
  "InLeapYear t = leapDays (YearFromTime t)"

definition DayWithinYear :: "Date \<Rightarrow> int" where
  "DayWithinYear t = Day t - DayFromYear (YearFromTime t)"

text \<open>
  \<open>monthStart m L\<close> is the day within the year on which month \<open>m\<close> (0 is January)
  starts, \<open>L\<close> being 1 in a leap year and 0 otherwise; it is the table behind
  ECMAScript's MonthFromTime and DateFromTime.
\<close>

definition monthStart :: "int \<Rightarrow> int \<Rightarrow> int" where
  "monthStart m L =
     (if m = 0 then 0 else if m = 1 then 31 else if m = 2 then 59 + L
      else if m = 3 then 90 + L else if m = 4 then 120 + L else if m = 5 then 151 + L
      else if m = 6 then 181 + L else if m = 7 then 212 + L else if m = 8 then 243 + L
      else if m = 9 then 273 + L else if m = 10 then 304 + L else if m = 11 then 334 + L
      else 365 + L)"

definition monthOfYearDay :: "int \<Rightarrow> int \<Rightarrow> int" where
  "monthOfYearDay d L =
     (if d < 31 then 0 else if d < 59 + L then 1 else if d < 90 + L then 2
      else if d < 120 + L then 3 else if d < 151 + L then 4 else if d < 181 + L then 5
      else if d < 212 + L then 6 else if d < 243 + L then 7 else if d < 273 + L then 8
      else if d < 304 + L then 9 else if d < 334 + L then 10 else 11)"

definition MonthFromTime :: "Date \<Rightarrow> int" where
  "MonthFromTime t = monthOfYearDay (DayWithinYear t) (InLeapYear t)"

definition DateFromTime :: "Date \<Rightarrow> int" where
  "DateFromTime t = DayWithinYear t - monthStart (MonthFromTime t) (InLeapYear t) + 1"

definition WeekDay :: "Date \<Rightarrow> int" where
  "WeekDay t = (Day t + 4) mod 7"

definition MakeTime :: "int \<Rightarrow> int \<Rightarrow> int \<Rightarrow> int \<Rightarrow> int" where
  "MakeTime h m s ms = h * 3600000 + m * 60000 + s * 1000 + ms"

definition MakeDay :: "int \<Rightarrow> int \<Rightarrow> int \<Rightarrow> int" where
  "MakeDay year month dt =
     (let ym = year + month div 12; mn = month mod 12
      in DayFromYear ym + monthStart mn (leapDays ym) + dt - 1)"

definition MakeDate :: "int \<Rightarrow> int \<Rightarrow> Date" where
  "MakeDate day tm = day * msPerDay + tm"

text \<open>The methods of \<^verbatim>\<open>Date\<close> that date-fns calls; a setter returns the new time value.\<close>

definition getTime :: "Date \<Rightarrow> int" where
  "getTime t = t"

definition getDay :: "Date \<Rightarrow> int" where
  "getDay t = WeekDay t"

definition getDate :: "Date \<Rightarrow> int" where
  "getDate t = DateFromTime t"

definition getMonth :: "Date \<Rightarrow> int" where
  "getMonth t = MonthFromTime t"

definition getFullYear :: "Date \<Rightarrow> int" where
  "getFullYear t = YearFromTime t"

definition setDate :: "Date \<Rightarrow> int \<Rightarrow> Date" where
  "setDate t dt = MakeDate (MakeDay (YearFromTime t) (MonthFromTime t) dt) (TimeWithinDay t)"

definition setHours :: "Date \<Rightarrow> int \<Rightarrow> int \<Rightarrow> int \<Rightarrow> int \<Rightarrow> Date" where
  "setHours t h m s ms = MakeDate (Day t) (MakeTime h m s ms)"

definition setMonth :: "Date \<Rightarrow> int \<Rightarrow> int \<Rightarrow> Date" where
  "setMonth t month dt = MakeDate (MakeDay (YearFromTime t) month dt) (TimeWithinDay t)"

definition setFullYear :: "Date \<Rightarrow> int \<Rightarrow> int \<Rightarrow> int \<Rightarrow> Date" where
  "setFullYear t year month dt = MakeDate (MakeDay year month dt) (TimeWithinDay t)"

section \<open>The date-fns functions the pages import\<close>

text \<open>
  date-fns is a dependency, not part of the repository; the functions below follow its
  published sources. \<^verbatim>\<open>isBefore\<close> turns its first argument into a date first, and
  \<^verbatim>\<open>undefined\<close> (an array read out of range) becomes an invalid date, which is before
  nothing: the argument is a \<open>Date option\<close>. The pages pass no options to
  \<^verbatim>\<open>startOfWeek\<close> and \<^verbatim>\<open>endOfWeek\<close>, so the week starts on day 0, Sunday.
\<close>

datatype error = RangeError

fun isBefore :: "Date option \<Rightarrow> Date \<Rightarrow> bool" where
  "isBefore None dateToCompare = False"
| "isBefore (Some d) dateToCompare = (getTime d < getTime dateToCompare)"

definition isWeekend :: "Date \<Rightarrow> bool" where
  "isWeekend d = (let day = getDay d in day = 0 \<or> day = 6)"

definition weekStartsOn_of :: "int option \<Rightarrow> int" where
  "weekStartsOn_of options = (case options of Some w \<Rightarrow> w | None \<Rightarrow> 0)"

definition startOfWeek :: "Date \<Rightarrow> int option \<Rightarrow> Date" where
  "startOfWeek d options =
     (let weekStartsOn = weekStartsOn_of options;
          day = getDay d;
          diff = (if day < weekStartsOn then 7 else 0) + day - weekStartsOn
      in setHours (setDate d (getDate d - diff)) 0 0 0 0)"

definition endOfWeek :: "Date \<Rightarrow> int option \<Rightarrow> Date" where
  "endOfWeek d options =
     (let weekStartsOn = weekStartsOn_of options;
          day = getDay d;
          diff = (if day < weekStartsOn then - 7 else 0) + 6 - (day - weekStartsOn)
      in setHours (setDate d (getDate d + diff)) 23 59 59 999)"

definition startOfMonth :: "Date \<Rightarrow> Date" where
  "startOfMonth d = setHours (setDate d 1) 0 0 0 0"

definition endOfMonth :: "Date \<Rightarrow> Date" where
  "endOfMonth d =
     (let month = getMonth d
      in setHours (setFullYear d (getFullYear d) (month + 1) 0) 23 59 59 999)"

definition addMonths :: "Date \<Rightarrow> int \<Rightarrow> Date" where
  "addMonths d amount =
     (if amount = 0 then d
      else
        let dayOfMonth = getDate d;
            endOfDesiredMonth = setMonth d (getMonth d + amount + 1) 0;
            daysInMonth = getDate endOfDesiredMonth
        in if dayOfMonth \<ge> daysInMonth then endOfDesiredMonth
           else setFullYear d (getFullYear endOfDesiredMonth) (getMonth endOfDesiredMonth)
                  dayOfMonth)"

definition subMonths :: "Date \<Rightarrow> int \<Rightarrow> Date" where
  "subMonths d amount = addMonths d (- amount)"

subsection \<open>eachDayOfInterval\<close>

text \<open>
  \<^verbatim>\<open>eachDayOfInterval\<close> throws a RangeError when the start is after the end; otherwise
  it sets the start to midnight and loops, one day at a time, while the current date is
  not after the end. The loop terminates because each round moves to the next midnight.
\<close>

lemma msPerDay_pos: "0 < msPerDay"
  by (simp add: msPerDay_def)

lemma Day_TimeWithinDay: "Day t * msPerDay + TimeWithinDay t = t"
  by (simp add: Day_def TimeWithinDay_def)

lemma TimeWithinDay_range: "0 \<le> TimeWithinDay t" "TimeWithinDay t < msPerDay"
  using msPerDay_pos by (simp_all add: TimeWithinDay_def)

lemma monthOfYearDay_range: "0 \<le> monthOfYearDay d L" "monthOfYearDay d L \<le> 11"
  by (simp_all add: monthOfYearDay_def)

lemma MonthFromTime_range: "0 \<le> MonthFromTime t" "MonthFromTime t \<le> 11"
  by (simp_all add: MonthFromTime_def monthOfYearDay_range)

lemma MakeDay_in_year:
  assumes "0 \<le> m" "m \<le> 11"
  shows "MakeDay y m dt = DayFromYear y + monthStart m (leapDays y) + dt - 1"
proof -
  have "m div 12 = 0" "m mod 12 = m" using assms by simp_all
  then show ?thesis by (simp add: MakeDay_def)
qed

lemma MakeDay_of_time:
  "MakeDay (YearFromTime t) (MonthFromTime t) dt = Day t + dt - DateFromTime t"
  unfolding MakeDay_in_year [OF MonthFromTime_range]
  by (simp add: DateFromTime_def DayWithinYear_def InLeapYear_def)

lemma setDate_shift: "setDate t (getDate t + k) = t + k * msPerDay"
proof -
  have "setDate t (getDate t + k) = (Day t + k) * msPerDay + TimeWithinDay t"
    by (simp add: setDate_def getDate_def MakeDay_of_time MakeDate_def)
  also have "\<dots> = t + k * msPerDay"
    using Day_TimeWithinDay [of t] by (simp add: algebra_simps)
  finally show ?thesis .
qed

lemma setHours_start: "setHours t 0 0 0 0 = Day t * msPerDay"
  by (simp add: setHours_def MakeDate_def MakeTime_def)

lemma next_day_start:
  "setHours (setDate t (getDate t + 1)) 0 0 0 0 = (Day t + 1) * msPerDay"
proof -
  have "t + msPerDay = msPerDay * (Day t + 1) + TimeWithinDay t"
    using Day_TimeWithinDay [of t] by (simp add: algebra_simps)
  from int_div_pos_eq [OF this TimeWithinDay_range]
  have "Day (t + msPerDay) = Day t + 1" by (simp add: Day_def)
  then show ?thesis using setDate_shift [of t 1] by (simp add: setHours_start)
qed

lemma next_day_later: "t < setHours (setDate t (getDate t + 1)) 0 0 0 0"
  unfolding next_day_start
  using Day_TimeWithinDay [of t] TimeWithinDay_range [of t]
  by (simp add: algebra_simps)

function eachDay_loop :: "Date \<Rightarrow> int \<Rightarrow> Date list" where
  "eachDay_loop currentDate endTime =
     (if getTime currentDate \<le> endTime
      then currentDate #
           eachDay_loop (setHours (setDate currentDate (getDate currentDate + 1)) 0 0 0 0) endTime
      else [])"
  by pat_completeness auto
termination
proof (relation "measure (\<lambda>(c, e). nat (e - c + 1))")
  show "wf (measure (\<lambda>(c, e). nat (e - c + 1)))" by simp
next
  fix currentDate endTime :: int
  assume "getTime currentDate \<le> endTime"
  then show "((setHours (setDate currentDate (getDate currentDate + 1)) 0 0 0 0, endTime),
              (currentDate, endTime)) \<in> measure (\<lambda>(c, e). nat (e - c + 1))"
    using next_day_later [of currentDate] by (simp add: getTime_def)
qed

declare eachDay_loop.simps [simp del]

definition eachDayOfInterval :: "Date \<Rightarrow> Date \<Rightarrow> error + Date list" where
  "eachDayOfInterval start endDate =
     (let endTime = getTime endDate
      in if \<not> (getTime start \<le> endTime) then Inl RangeError
         else Inr (eachDay_loop (setHours start 0 0 0 0) endTime))"

text \<open>
  Both pages build the columns of the table as
  \<^verbatim>\<open>eachDayOfInterval({ start, end }).filter((day) => !isWeekend(day))\<close>
  (\<^verbatim>\<open>weekDays\<close> in page.tsx, \<^verbatim>\<open>dateRangeArray\<close> in tmp.tsx).
\<close>

definition workdays :: "Date \<Rightarrow> Date \<Rightarrow> error + Date list" where
  "workdays start endDate =
     (case eachDayOfInterval start endDate of
        Inl e \<Rightarrow> Inl e
      | Inr days \<Rightarrow> Inr (filter (\<lambda>day. \<not> isWeekend day) days))"

text \<open>
  A day number is a workday when its day of the week is neither 0 (Sunday) nor 6
  (Saturday); day 0, 1 January 1970, was a Thursday.
\<close>

definition isWorkdayNo :: "int \<Rightarrow> bool" where
  "isWorkdayNo k = ((k + 4) mod 7 \<noteq> 0 \<and> (k + 4) mod 7 \<noteq> 6)"

section \<open>page.tsx: the page with the synthetic data\<close>

text \<open>
  An object with optional properties is a record with \<open>option\<close> fields. The object
  \<^verbatim>\<open>getStatus\<close> returns has a status and may have a check-in time and a comment; an
  entry of an employee's \<^verbatim>\<open>attendance\<close> array adds the date.
\<close>

datatype AttendanceStatus = Present | Absent | Vacation | Late | OfficialLeave | NotYet

record StatusInfo =
  status :: AttendanceStatus
  checkInTime :: "string option"
  comment :: "string option"

record AttendanceEntry = StatusInfo +
  date :: Date

record Employee =
  id' :: int
  name :: string
  remainingVacationDays :: rat
  accumulatedFine :: int

record EmployeeRow = Employee +
  attendance :: "AttendanceEntry list"

definition employees :: "Employee list" where
  "employees =
     [\<lparr>id' = 1, name = ''John Doe'', remainingVacationDays = 3, accumulatedFine = 50000\<rparr>,
      \<lparr>id' = 2, name = ''Jane Smith'', remainingVacationDays = 5, accumulatedFine = 30000\<rparr>,
      \<lparr>id' = 3, name = ''Bob Johnson'', remainingVacationDays = 1, accumulatedFine = 75000\<rparr>]"

text \<open>Reading an array at an index: \<^verbatim>\<open>undefined\<close> out of range.\<close>

definition at_index :: "'a list \<Rightarrow> nat \<Rightarrow> 'a option" where
  "at_index xs i = (if i < length xs then Some (xs ! i) else None)"

definition statusOnly :: "AttendanceStatus \<Rightarrow> StatusInfo" where
  "statusOnly s = \<lparr>status = s, checkInTime = None, comment = None\<rparr>"

definition statusAt :: "AttendanceStatus \<Rightarrow> string \<Rightarrow> StatusInfo" where
  "statusAt s t = \<lparr>status = s, checkInTime = Some t, comment = None\<rparr>"

text \<open>
  \<^verbatim>\<open>getStatus\<close> is local to \<^verbatim>\<open>fetchAttendanceData\<close>; the array \<^verbatim>\<open>weekDays\<close> and the
  current instant \<^verbatim>\<open>today = new Date()\<close> it closes over are parameters here.
\<close>

definition getStatus :: "Date list \<Rightarrow> Date \<Rightarrow> int \<Rightarrow> nat \<Rightarrow> StatusInfo" where
  "getStatus weekDays today employeeId index =
     (if \<not> isBefore (at_index weekDays index) today then statusOnly NotYet
      else if employeeId = 1 then
        (if index mod 10 = 0 then statusOnly Vacation else statusAt Present ''09:40'')
      else if employeeId = 2 then
        (if index mod 5 = 0 then statusAt Late ''10:15'' else statusOnly Absent)
      else if employeeId = 3 then
        (let statuses = [Present, Absent, Late, Vacation, OfficialLeave];
             st = statuses ! (index mod 5)
         in if st = Present then statusAt st ''09:50''
            else if st = Late then statusAt st ''10:15''
            else statusOnly st)
      else statusOnly NotYet)"

definition fetchAttendanceData :: "Date \<Rightarrow> Date \<Rightarrow> Date \<Rightarrow> error + EmployeeRow list" where
  "fetchAttendanceData start endDate today =
     (case workdays start endDate of
        Inl e \<Rightarrow> Inl e
      | Inr weekDays \<Rightarrow>
          Inr (map (\<lambda>employee.
                 Employee.extend employee
                   (EmployeeRow.fields
                     (map (\<lambda>(d, index).
                        let r = getStatus weekDays today (id' employee) index
                        in \<lparr>status = status r, checkInTime = checkInTime r, comment = None,
                            date = d\<rparr>)
                      (zip weekDays [0..<length weekDays]))))
               employees))"

text \<open>The state of the component: one field for each \<^verbatim>\<open>useState\<close>.\<close>

datatype ViewMode = day_mode | week_mode | month_mode | all_mode

record DateRange =
  from' :: Date
  to' :: Date

record PageState =
  attendanceData :: "EmployeeRow list"
  editDate :: "Date option"
  editEmployeeId :: "int option"
  editStatus :: AttendanceStatus
  dateRange :: DateRange
  viewMode :: ViewMode
  isLoading :: bool
  showFines :: "int \<Rightarrow> bool"

definition handleViewModeChange :: "ViewMode \<Rightarrow> Date \<Rightarrow> PageState \<Rightarrow> PageState" where
  "handleViewModeChange mode today s =
     (let (newFrom, newTo) =
            (case mode of
               day_mode \<Rightarrow> (today, today)
             | week_mode \<Rightarrow> (startOfWeek today None, endOfWeek today None)
             | month_mode \<Rightarrow> (startOfMonth today, endOfMonth today)
             | all_mode \<Rightarrow> (subMonths today 12, today))
      in s\<lparr>viewMode := mode, dateRange := \<lparr>from' = newFrom, to' = newTo\<rparr>\<rparr>)"

definition handleEdit :: "int \<Rightarrow> Date \<Rightarrow> AttendanceStatus \<Rightarrow> PageState \<Rightarrow> PageState" where
  "handleEdit employeeId d st s =
     (if st \<noteq> NotYet
      then s\<lparr>editEmployeeId := Some employeeId, editDate := Some d, editStatus := st\<rparr>
      else s)"

text \<open>
  \<^verbatim>\<open>saveEdit\<close> tests \<^verbatim>\<open>editEmployeeId && editDate && editStatus\<close>: a number is truthy
  when it is not 0, a \<^verbatim>\<open>Date\<close> object always, and a status is never the empty string.
\<close>

definition truthy :: "int option \<Rightarrow> bool" where
  "truthy v = (case v of None \<Rightarrow> False | Some n \<Rightarrow> n \<noteq> 0)"

definition saveEdit :: "PageState \<Rightarrow> PageState" where
  "saveEdit s =
     (case editDate s of
        Some ed \<Rightarrow>
          if truthy (editEmployeeId s) then
            s\<lparr>attendanceData :=
                 map (\<lambda>employee.
                        if Some (id' employee) = editEmployeeId s
                        then employee\<lparr>attendance :=
                               map (\<lambda>a. if getTime (date a) = getTime ed
                                         then a\<lparr>status := editStatus s\<rparr> else a)
                                   (attendance employee)\<rparr>
                        else employee)
                     (attendanceData s),
               editEmployeeId := None, editDate := None, editStatus := Present\<rparr>
          else s
      | None \<Rightarrow> s)"

definition handleVacationDayChange :: "int \<Rightarrow> rat \<Rightarrow> PageState \<Rightarrow> PageState" where
  "handleVacationDayChange employeeId change s =
     s\<lparr>attendanceData :=
          map (\<lambda>employee.
                 if id' employee = employeeId
                 then employee\<lparr>remainingVacationDays :=
                        max 0 (remainingVacationDays employee + change)\<rparr>
                 else employee)
              (attendanceData s)\<rparr>"

text \<open>
  The four buttons the page renders beside an employee's balance, each with the change
  it passes to \<^verbatim>\<open>handleVacationDayChange\<close> and its \<^verbatim>\<open>disabled\<close> attribute.
\<close>

record VacationButton =
  clickChange :: rat
  disabled :: bool

definition vacationButtons :: "EmployeeRow \<Rightarrow> VacationButton list" where
  "vacationButtons employee =
     [\<lparr>clickChange = 1, disabled = False\<rparr>,
      \<lparr>clickChange = 1 / 2, disabled = False\<rparr>,
      \<lparr>clickChange = - (1 / 2), disabled = (remainingVacationDays employee < 1 / 2)\<rparr>,
      \<lparr>clickChange = - 1, disabled = (remainingVacationDays employee < 1)\<rparr>]"

section \<open>JSON and HTTP\<close>

text \<open>
  The JSON values the pages and the API route exchange, and \<^verbatim>\<open>JSON.stringify\<close> on
  them: no white space, the properties of an object in their order, strings quoted with
  the escapes of ECMAScript's QuoteJSONString. The numbers that occur are employee ids
  and status codes, so a number is an integer.
\<close>

datatype json = JNull | JBool bool | JNumber int | JString string
  | JArray "json list" | JObject "(string \<times> json) list"

definition digitChar :: "nat \<Rightarrow> char" where
  "digitChar n = ''0123456789abcdef'' ! n"

fun showNat :: "nat \<Rightarrow> string" where
  "showNat n = (if n < 10 then [digitChar n] else showNat (n div 10) @ [digitChar (n mod 10)])"

declare showNat.simps [simp del]

definition showInt :: "int \<Rightarrow> string" where
  "showInt i = (if i < 0 then CHR ''-'' # showNat (nat (- i)) else showNat (nat i))"

definition quoteChar :: "char \<Rightarrow> string" where
  "quoteChar c =
     (if c = CHR 0x22 then [CHR 0x5C, CHR 0x22]
      else if c = CHR 0x5C then [CHR 0x5C, CHR 0x5C]
      else if c = CHR 0x08 then [CHR 0x5C, CHR ''b'']
      else if c = CHR 0x0C then [CHR 0x5C, CHR ''f'']
      else if c = CHR 0x0A then [CHR 0x5C, CHR ''n'']
      else if c = CHR 0x0D then [CHR 0x5C, CHR ''r'']
      else if c = CHR 0x09 then [CHR 0x5C, CHR ''t'']
      else if (of_char c :: nat) < 32
        then [CHR 0x5C, CHR ''u'', CHR ''0'', CHR ''0'',
              digitChar (of_char c div 16), digitChar (of_char c mod 16)]
      else [c])"

definition quoteJSON :: "string \<Rightarrow> string" where
  "quoteJSON s = CHR 0x22 # concat (map quoteChar s) @ [CHR 0x22]"

fun joinWith :: "string \<Rightarrow> string list \<Rightarrow> string" where
  "joinWith sep [] = []"
| "joinWith sep [x] = x"
| "joinWith sep (x # y # ys) = x @ sep @ joinWith sep (y # ys)"

fun stringify :: "json \<Rightarrow> string" where
  "stringify JNull = ''null''"
| "stringify (JBool b) = (if b then ''true'' else ''false'')"
| "stringify (JNumber n) = showInt n"
| "stringify (JString s) = quoteJSON s"
| "stringify (JArray xs) = ''['' @ joinWith '','' (map stringify xs) @ '']''"
| "stringify (JObject kvs) =
     ''{'' @ joinWith '','' (map (\<lambda>(k, v). quoteJSON k @ '':'' @ stringify v) kvs) @ ''}''"

text \<open>
  A call of \<^verbatim>\<open>fetch\<close> sends a request and either rejects or resolves with a response.
  \<^verbatim>\<open>response.ok\<close> says that the status is in the range 200 to 299. Reading the body
  with \<^verbatim>\<open>response.json()\<close> or \<^verbatim>\<open>response.text()\<close> can itself throw: the field is
  \<open>None\<close> then. The network is a parameter of the functions that use it.
\<close>

record HttpRequest =
  url :: string
  httpMethod :: string
  headers :: "(string \<times> string) list"
  body :: "string option"

record HttpResponse =
  statusCode :: nat
  contentType :: "string option"
  jsonBody :: "json option"
  textBody :: "string option"

datatype FetchOutcome = Rejects | Resolves HttpResponse

definition ok :: "HttpResponse \<Rightarrow> bool" where
  "ok r = (200 \<le> statusCode r \<and> statusCode r \<le> 299)"

section \<open>tmp.tsx: the page over the remote service\<close>

text \<open>
  Names of tmp.tsx that page.tsx also uses carry the suffix \<open>_r\<close>. The state has a
  field for each \<^verbatim>\<open>useState\<close>, and two more for what the page writes with
  \<^verbatim>\<open>console.error\<close> and shows with \<^verbatim>\<open>alert\<close>.
\<close>

datatype AttendanceStatus_r = PRESENT | ABSENT | VACATION | LATE | OFFICIAL_LEAVE | NOT_YET

record AttendanceRecord =
  attendanceDate :: string
  status_r :: AttendanceStatus_r
  time :: "string option"
  comment_r :: "string option"

record Employee_r =
  id_r :: int
  name_r :: string
  remainingLeaveDays :: rat
  latePenaltyPoints :: int

record PageState_r =
  employees_r :: "Employee_r list"
  attendanceData_r :: "int \<rightharpoonup> AttendanceRecord list"
  editDate_r :: "string option"
  editEmployeeId_r :: "int option"
  editStatus_r :: AttendanceStatus_r
  editTime :: string
  editComment :: string
  dateRange_r :: DateRange
  viewMode_r :: ViewMode
  isLoading_r :: bool
  showPenalties :: "int \<Rightarrow> bool"
  consoleErrors :: "string list"
  alerts :: "string list"

text \<open>
  \<^verbatim>\<open>fetchAttendanceData\<close> starts one request for each employee, for the records of the
  range, and waits for all of them with \<^verbatim>\<open>Promise.all\<close>. \<open>net employeeId range\<close> is
  the network's reply to that request: no reply, or a status and the records its body
  parses to, if it does. The promise of an employee rejects when the fetch does, when the
  status is not ok, and when the body is not JSON; otherwise it resolves with the
  object \<^verbatim>\<open>{ [employee.id]: data }\<close>. \<^verbatim>\<open>Promise.all\<close> rejects as soon as one of the
  promises does (here: with the first rejection in the order of the list; the error is
  only logged) and resolves with all the results otherwise.
  \<^verbatim>\<open>Object.assign({}, ...results)\<close> copies the results into one object, a later one
  over an earlier one.
\<close>

datatype RecordsReply = NetworkError | Reply nat "AttendanceRecord list option"

definition recordsPromise :: "int \<Rightarrow> RecordsReply \<Rightarrow> string + (int \<times> AttendanceRecord list)" where
  "recordsPromise employeeId reply =
     (case reply of
        NetworkError \<Rightarrow> Inl ''TypeError: fetch failed''
      | Reply st data \<Rightarrow>
          if \<not> (200 \<le> st \<and> st \<le> 299) then Inl ''Error: Failed to fetch attendance data''
          else (case data of
                  None \<Rightarrow> Inl ''SyntaxError''
                | Some records \<Rightarrow> Inr (employeeId, records)))"

fun Promise_all :: "('e + 'a) list \<Rightarrow> 'e + 'a list" where
  "Promise_all [] = Inr []"
| "Promise_all (Inl e # ps) = Inl e"
| "Promise_all (Inr x # ps) =
     (case Promise_all ps of Inl e \<Rightarrow> Inl e | Inr xs \<Rightarrow> Inr (x # xs))"

definition Object_assign :: "('k \<times> 'v) list \<Rightarrow> ('k \<rightharpoonup> 'v)" where
  "Object_assign results = foldl (\<lambda>target (k, v). target(k \<mapsto> v)) Map.empty results"

definition fetchAttendanceData_r ::
  "(int \<Rightarrow> DateRange \<Rightarrow> RecordsReply) \<Rightarrow> PageState_r \<Rightarrow> PageState_r" where
  "fetchAttendanceData_r net s =
     (let s1 = s\<lparr>isLoading_r := True\<rparr>;
          promises = map (\<lambda>employee.
                       recordsPromise (id_r employee) (net (id_r employee) (dateRange_r s)))
                     (employees_r s)
      in case Promise_all promises of
           Inr results \<Rightarrow>
             s1\<lparr>attendanceData_r := Object_assign results, isLoading_r := False\<rparr>
         | Inl err \<Rightarrow>
             s1\<lparr>consoleErrors := consoleErrors s1 @ [''Error fetching attendance data: '' @ err],
                isLoading_r := False\<rparr>)"

definition handleViewModeChange_r :: "ViewMode \<Rightarrow> Date \<Rightarrow> PageState_r \<Rightarrow> PageState_r" where
  "handleViewModeChange_r mode today s =
     (let (newFrom, newTo) =
            (case mode of
               day_mode \<Rightarrow> (today, today)
             | week_mode \<Rightarrow> (startOfWeek today None, endOfWeek today None)
             | month_mode \<Rightarrow> (startOfMonth today, endOfMonth today)
             | all_mode \<Rightarrow> (subMonths today 12, today))
      in s\<lparr>viewMode_r := mode, dateRange_r := \<lparr>from' = newFrom, to' = newTo\<rparr>\<rparr>)"

definition handleEdit_r ::
  "int \<Rightarrow> string \<Rightarrow> AttendanceStatus_r \<Rightarrow> string option \<Rightarrow> string option \<Rightarrow> PageState_r
   \<Rightarrow> PageState_r" where
  "handleEdit_r employeeId d st tm cm s =
     s\<lparr>editEmployeeId_r := Some employeeId, editDate_r := Some d, editStatus_r := st,
       editTime := (case tm of Some x \<Rightarrow> x | None \<Rightarrow> ''''),
       editComment := (case cm of Some x \<Rightarrow> x | None \<Rightarrow> '''')\<rparr>"

definition statusString :: "AttendanceStatus_r \<Rightarrow> string" where
  "statusString st =
     (case st of PRESENT \<Rightarrow> ''PRESENT'' | ABSENT \<Rightarrow> ''ABSENT'' | VACATION \<Rightarrow> ''VACATION''
      | LATE \<Rightarrow> ''LATE'' | OFFICIAL_LEAVE \<Rightarrow> ''OFFICIAL_LEAVE'' | NOT_YET \<Rightarrow> ''NOT_YET'')"

text \<open>
  \<^verbatim>\<open>saveEdit\<close> does nothing unless \<^verbatim>\<open>editEmployeeId && editDate && editStatus\<close>: the id
  is a number other than 0 and the date is not the empty string. It sends one request
  to the API route of the application; \<open>proxy\<close> is the reply to it. The result is the
  new state together with the requests sent to the route. When the reply is ok and
  its body is JSON, the page reloads the records (\<^verbatim>\<open>fetchAttendanceData()\<close>) and
  resets the five edit slots; in every other case it logs the error and shows an alert.
\<close>

record SaveRun =
  state :: PageState_r
  sent :: "HttpRequest list"

definition saveFailed :: "PageState_r \<Rightarrow> string \<Rightarrow> PageState_r" where
  "saveFailed s err =
     s\<lparr>consoleErrors := consoleErrors s @ [''Error updating attendance: '' @ err],
       alerts := alerts s @ [''Failed to update attendance: '' @ err]\<rparr>"

definition saveEdit_r ::
  "(HttpRequest \<Rightarrow> FetchOutcome) \<Rightarrow> (int \<Rightarrow> DateRange \<Rightarrow> RecordsReply) \<Rightarrow> PageState_r
   \<Rightarrow> SaveRun" where
  "saveEdit_r proxy net s =
     (case (editEmployeeId_r s, editDate_r s) of
        (Some employeeId, Some attDate) \<Rightarrow>
          if employeeId \<noteq> 0 \<and> attDate \<noteq> '''' then
            let requestBody =
                  JObject [(''userId'', JNumber employeeId),
                           (''attendanceDate'', JString attDate),
                           (''status'', JString (statusString (editStatus_r s))),
                           (''comment'', JString (editComment s)),
                           (''time'', JString (editTime s))];
                request = \<lparr>url = ''/api/attendance'', httpMethod = ''PUT'',
                           headers = [(''Content-Type'', ''application/json'')],
                           body = Some (stringify requestBody)\<rparr>
            in case proxy request of
                 Rejects \<Rightarrow>
                   \<lparr>state = saveFailed s ''TypeError: fetch failed'', sent = [request]\<rparr>
               | Resolves response \<Rightarrow>
                   if \<not> ok response then
                     (case textBody response of
                        None \<Rightarrow> \<lparr>state = saveFailed s ''TypeError'', sent = [request]\<rparr>
                      | Some errorText \<Rightarrow>
                          \<lparr>state = saveFailed s
                             (''Error: HTTP error! status: ''
                              @ showInt (int (statusCode response))
                              @ '', message: '' @ errorText),
                           sent = [request]\<rparr>)
                   else
                     (case jsonBody response of
                        None \<Rightarrow> \<lparr>state = saveFailed s ''SyntaxError'', sent = [request]\<rparr>
                      | Some data \<Rightarrow>
                          \<lparr>state = (fetchAttendanceData_r net s)
                             \<lparr>editEmployeeId_r := None, editDate_r := None,
                              editStatus_r := PRESENT, editTime := '''',
                              editComment := ''''\<rparr>,
                           sent = [request]\<rparr>)
          else \<lparr>state = s, sent = []\<rparr>
      | _ \<Rightarrow> \<lparr>state = s, sent = []\<rparr>)"

section \<open>The API route\<close>

text \<open>
  \<^verbatim>\<open>handler\<close> answers a request to \<^verbatim>\<open>/api/attendance\<close>. \<^verbatim>\<open>API_BASE_URL\<close> is the value of
  the environment variable and \<open>upstream\<close> the reply of the upstream service to the
  forwarded request. Everything between \<^verbatim>\<open>try\<close> and \<^verbatim>\<open>catch\<close> that throws (the fetch,
  the \<^verbatim>\<open>throw\<close> on a reply that is not ok, reading the body) ends in the \<^verbatim>\<open>catch\<close>
  block, which logs and answers 500; the \<^verbatim>\<open>Error\<close> object in that answer has no
  enumerable property and serialises to \<^verbatim>\<open>{}\<close>. The result is the answer together with
  the requests made upstream and the lines logged.
\<close>

record NextApiRequest =
  reqMethod :: string
  reqBody :: json

datatype ResBody = JsonBody json | EndText string

record NextApiResponse =
  resStatus :: nat
  resHeaders :: "(string \<times> string list) list"
  resBody :: ResBody

record HandlerRun =
  res :: NextApiResponse
  upstreamCalls :: "HttpRequest list"
  errorLog :: "string list"

fun indexOf :: "string \<Rightarrow> string \<Rightarrow> int" where
  "indexOf [] searchString = (if searchString = [] then 0 else - 1)"
| "indexOf (c # cs) searchString =
     (if take (length searchString) (c # cs) = searchString then 0
      else let i = indexOf cs searchString in if i = - 1 then - 1 else i + 1)"

definition isJsonContentType :: "string option \<Rightarrow> bool" where
  "isJsonContentType ct =
     (case ct of
        None \<Rightarrow> False
      | Some t \<Rightarrow> t \<noteq> '''' \<and> indexOf t ''application/json'' \<noteq> - 1)"

definition handler ::
  "string \<Rightarrow> (HttpRequest \<Rightarrow> FetchOutcome) \<Rightarrow> NextApiRequest \<Rightarrow> HandlerRun" where
  "handler API_BASE_URL upstream req =
     (if reqMethod req = ''PUT'' then
        let call = \<lparr>url = API_BASE_URL @ ''/attendance'', httpMethod = ''PUT'',
                    headers = [(''Content-Type'', ''application/json'')],
                    body = Some (stringify (reqBody req))\<rparr>;
            failed = \<lparr>res =
                        \<lparr>resStatus = 500, resHeaders = [],
                         resBody = JsonBody (JObject
                           [(''message'', JString ''Failed to update attendance''),
                            (''error'', JObject [])])\<rparr>,
                      upstreamCalls = [call],
                      errorLog = [''Error updating attendance:'']\<rparr>;
            relayed = (\<lambda>data. \<lparr>res = \<lparr>resStatus = 200, resHeaders = [],
                                            resBody = JsonBody data\<rparr>,
                                upstreamCalls = [call], errorLog = []\<rparr>)
        in case upstream call of
             Rejects \<Rightarrow> failed
           | Resolves r \<Rightarrow>
               if \<not> ok r then failed
               else if isJsonContentType (contentType r) then
                 (case jsonBody r of None \<Rightarrow> failed | Some data \<Rightarrow> relayed data)
               else
                 (case textBody r of
                    None \<Rightarrow> failed
                  | Some text \<Rightarrow> relayed (JObject [(''message'', JString text)]))
      else
        \<lparr>res = \<lparr>resStatus = 405, resHeaders = [(''Allow'', [''PUT''])],
                      resBody = EndText (''Method '' @ reqMethod req @ '' Not Allowed'')\<rparr>,
         upstreamCalls = [], errorLog = []\<rparr>)"

section \<open>Names used in the statements\<close>

text \<open>
  The answer of the API route's \<^verbatim>\<open>catch\<close> block, the answer that relays upstream data,
  the request the route forwards, and the outcome of the promise
  \<^verbatim>\<open>fetchAttendanceData\<close> of tmp.tsx creates for an employee id.
\<close>

definition serverError :: NextApiResponse where
  "serverError =
     \<lparr>resStatus = 500, resHeaders = [],
      resBody = JsonBody (JObject [(''message'', JString ''Failed to update attendance''),
                                   (''error'', JObject [])])\<rparr>"

definition relay :: "json \<Rightarrow> NextApiResponse" where
  "relay data = \<lparr>resStatus = 200, resHeaders = [], resBody = JsonBody data\<rparr>"

definition upstreamCall :: "string \<Rightarrow> NextApiRequest \<Rightarrow> HttpRequest" where
  "upstreamCall API_BASE_URL req =
     \<lparr>url = API_BASE_URL @ ''/attendance'', httpMethod = ''PUT'',
      headers = [(''Content-Type'', ''application/json'')],
      body = Some (stringify (reqBody req))\<rparr>"

definition recordsOf :: "(int \<Rightarrow> DateRange \<Rightarrow> RecordsReply) \<Rightarrow> PageState_r \<Rightarrow> int
    \<Rightarrow> string + (int \<times> AttendanceRecord list)" where
  "recordsOf net s employeeId = recordsPromise employeeId (net employeeId (dateRange_r s))"

section \<open>Example states\<close>

text \<open>
  Concrete inputs for the examples below. Wednesday 6 March 2024, 09:00, is the instant
  \<open>1709715600000\<close>; the midnights that start Monday 4, Tuesday 5, Wednesday 6 and
  Thursday 7 March 2024 are \<open>1709510400000\<close>, \<open>1709596800000\<close>, \<open>1709683200000\<close>
  and \<open>1709769600000\<close>.
\<close>

definition stateOf :: "EmployeeRow list \<Rightarrow> PageState" where
  "stateOf rows =
     \<lparr>attendanceData = rows, editDate = None, editEmployeeId = None, editStatus = Present,
      dateRange = \<lparr>from' = 1709715600000, to' = 1709715600000\<rparr>, viewMode = week_mode,
      isLoading = False, showFines = (\<lambda>_. False)\<rparr>"

definition bob :: EmployeeRow where
  "bob = \<lparr>id' = 3, name = ''Bob Johnson'', remainingVacationDays = 1 / 2,
           accumulatedFine = 75000, attendance = []\<rparr>"

definition john :: EmployeeRow where
  "john = \<lparr>id' = 1, name = ''John Doe'', remainingVacationDays = 3,
            accumulatedFine = 50000,
            attendance =
              [\<lparr>status = Vacation, checkInTime = None, comment = None,
                 date = 1709510400000\<rparr>,
               \<lparr>status = Present, checkInTime = Some ''09:40'', comment = None,
                 date = 1709596800000\<rparr>]\<rparr>"

definition jane :: EmployeeRow where
  "jane = \<lparr>id' = 2, name = ''Jane Smith'', remainingVacationDays = 5,
            accumulatedFine = 30000,
            attendance =
              [\<lparr>status = Late, checkInTime = Some ''10:15'', comment = None,
                 date = 1709510400000\<rparr>,
               \<lparr>status = Absent, checkInTime = None, comment = None,
                 date = 1709596800000\<rparr>]\<rparr>"

text \<open>
  The operator opens John's cell of Tuesday 5 March and selects "Absent" in the dialog.
\<close>

definition editing :: PageState where
  "editing = (handleEdit 1 1709596800000 Present (stateOf [john, jane]))\<lparr>editStatus := Absent\<rparr>"

text \<open>
  The edit of the scenario (employee 2, 5 March 2024, official leave, comment "medical"),
  replies of the upstream service and of the route, and a remote page with two employees
  whose week is Sunday 3 to Saturday 9 March 2024.
\<close>

definition medicalLeave :: json where
  "medicalLeave =
     JObject [(''userId'', JNumber 2), (''attendanceDate'', JString ''2024-03-05''),
              (''status'', JString ''OFFICIAL_LEAVE''), (''comment'', JString ''medical''),
              (''time'', JString '''')]"

definition upstreamReply :: "nat \<Rightarrow> string \<Rightarrow> json option \<Rightarrow> string \<Rightarrow> HttpRequest \<Rightarrow> FetchOutcome" where
  "upstreamReply st ct js tx request =
     Resolves \<lparr>statusCode = st, contentType = Some ct, jsonBody = js, textBody = Some tx\<rparr>"

definition officialLeave :: AttendanceRecord where
  "officialLeave = \<lparr>attendanceDate = ''2024-03-05'', status_r = OFFICIAL_LEAVE,
                     time = None, comment_r = Some ''medical''\<rparr>"

definition presentOld :: AttendanceRecord where
  "presentOld = \<lparr>attendanceDate = ''2024-03-04'', status_r = PRESENT,
                  time = Some ''09:40'', comment_r = None\<rparr>"

definition remoteState :: "(int \<rightharpoonup> AttendanceRecord list) \<Rightarrow> PageState_r" where
  "remoteState shown =
     \<lparr>employees_r =
        [\<lparr>id_r = 1, name_r = ''John Doe'', remainingLeaveDays = 3, latePenaltyPoints = 0\<rparr>,
         \<lparr>id_r = 2, name_r = ''Jane Smith'', remainingLeaveDays = 5, latePenaltyPoints = 2\<rparr>],
      attendanceData_r = shown, editDate_r = None, editEmployeeId_r = None,
      editStatus_r = PRESENT, editTime = [], editComment = [],
      dateRange_r = \<lparr>from' = 1709424000000, to' = 1710028799999\<rparr>, viewMode_r = week_mode,
      isLoading_r = True, showPenalties = (\<lambda>_. False), consoleErrors = [], alerts = []\<rparr>"

definition firstFails :: "int \<Rightarrow> DateRange \<Rightarrow> RecordsReply" where
  "firstFails employeeId r =
     (if employeeId = 1 then Reply 500 None else Reply 200 (Some [officialLeave]))"

definition allSucceed :: "int \<Rightarrow> DateRange \<Rightarrow> RecordsReply" where
  "allSucceed employeeId r =
     (if employeeId = 1 then Reply 200 (Some [presentOld]) else Reply 200 (Some [officialLeave]))"

definition editingLeave :: PageState_r where
  "editingLeave =
     (handleEdit_r 2 ''2024-03-05'' PRESENT (Some ''09:40'') None (remoteState Map.empty))
       \<lparr>editStatus_r := OFFICIAL_LEAVE, editComment := ''medical'', editTime := []\<rparr>"

definition proxyOk :: "HttpRequest \<Rightarrow> FetchOutcome" where
  "proxyOk request =
     Resolves \<lparr>statusCode = 200, contentType = Some ''application/json'',
               jsonBody = Some (JObject [(''message'', JString ''updated'')]),
               textBody = Some []\<rparr>"

section \<open>Calendar arithmetic\<close>

subsection \<open>Years\<close>

lemma div_step:
  fixes x n :: int
  assumes "0 < n"
  shows "(x + 1) div n = x div n + (if (x + 1) mod n = 0 then 1 else 0)"
proof -
  define q r where "q = x div n" and "r = x mod n"
  have x: "x = n * q + r" and r: "0 \<le> r" "r < n"
    using assms by (simp_all add: q_def r_def)
  show ?thesis
  proof (cases "r + 1 = n")
    case True
    have e: "x + 1 = n * (q + 1) + 0" using x True by (simp add: algebra_simps)
    have "(x + 1) div n = q + 1"
      by (rule int_div_pos_eq [OF e]) (use assms in simp_all)
    moreover have "(x + 1) mod n = 0"
      by (rule int_mod_pos_eq [OF e]) (use assms in simp_all)
    ultimately show ?thesis by (simp add: q_def)
  next
    case False
    then have lt: "r + 1 < n" using r by simp
    have e: "x + 1 = n * q + (r + 1)" using x by simp
    have "(x + 1) div n = q"
      by (rule int_div_pos_eq [OF e]) (use r lt in simp_all)
    moreover have "(x + 1) mod n = r + 1"
      by (rule int_mod_pos_eq [OF e]) (use r lt in simp_all)
    ultimately show ?thesis using r by (simp add: q_def)
  qed
qed

lemma mod_shift: "((y::int) - n * k) mod n = y mod n"
  using mod_mult_self2 [of y n "- k"] by simp

lemma leap_mod4: "((y::int) - 1968) mod 4 = 0 \<longleftrightarrow> y mod 4 = 0"
  using mod_shift [of y 4 492] by simp

lemma leap_mod100: "((y::int) - 1900) mod 100 = 0 \<longleftrightarrow> y mod 100 = 0"
  using mod_shift [of y 100 19] by simp

lemma leap_mod400: "((y::int) - 1600) mod 400 = 0 \<longleftrightarrow> y mod 400 = 0"
  using mod_shift [of y 400 4] by simp

lemma mod100_mod4: "(y::int) mod 100 = 0 \<Longrightarrow> y mod 4 = 0"
  using mod_mod_cancel [of 4 100 y] by simp

lemma mod400_mod100: "(y::int) mod 400 = 0 \<Longrightarrow> y mod 100 = 0"
  using mod_mod_cancel [of 100 400 y] by simp

lemma DayFromYear_Suc: "DayFromYear (y + 1) = DayFromYear y + DaysInYear y"
proof -
  have a: "(y + 1 - 1969) div 4 = (y - 1969) div 4 + (if y mod 4 = 0 then 1 else 0)"
    using div_step [of 4 "y - 1969"] leap_mod4 [of y] by (simp add: algebra_simps)
  have b: "(y + 1 - 1901) div 100 = (y - 1901) div 100 + (if y mod 100 = 0 then 1 else 0)"
    using div_step [of 100 "y - 1901"] leap_mod100 [of y] by (simp add: algebra_simps)
  have c: "(y + 1 - 1601) div 400 = (y - 1601) div 400 + (if y mod 400 = 0 then 1 else 0)"
    using div_step [of 400 "y - 1601"] leap_mod400 [of y] by (simp add: algebra_simps)
  show ?thesis
    unfolding DayFromYear_def DaysInYear_def a b c
    using mod100_mod4 [of y] mod400_mod100 [of y] by auto
qed

lemma DayFromYear_shape:
  assumes "0 \<le> c" "c \<le> 3" "0 \<le> q" "q \<le> 24" "0 \<le> r" "r \<le> 3"
  shows "DayFromYear (1601 + 400 * era + 100 * c + 4 * q + r)
         = 146097 * era + 36524 * c + 1461 * q + 365 * r - 134774"
proof -
  define y where "y = 1601 + 400 * era + 100 * c + 4 * q + r"
  have e4: "y - 1969 = 4 * (100 * era + 25 * c + q - 92) + r"
    by (simp add: y_def)
  have e100: "y - 1901 = 100 * (4 * era + c - 3) + (4 * q + r)"
    by (simp add: y_def)
  have e400: "y - 1601 = 400 * era + (100 * c + 4 * q + r)"
    by (simp add: y_def)
  have d4: "(y - 1969) div 4 = 100 * era + 25 * c + q - 92"
    by (rule int_div_pos_eq [OF e4]) (use assms in simp_all)
  have d100: "(y - 1901) div 100 = 4 * era + c - 3"
    by (rule int_div_pos_eq [OF e100]) (use assms in simp_all)
  have d400: "(y - 1601) div 400 = era"
    by (rule int_div_pos_eq [OF e400]) (use assms in simp_all)
  have "DayFromYear y = 146097 * era + 36524 * c + 1461 * q + 365 * r - 134774"
    unfolding DayFromYear_def d4 d100 d400 by (simp add: y_def)
  then show ?thesis by (simp add: y_def)
qed

lemma DaysInYear_shape:
  assumes "0 \<le> c" "c \<le> 3" "0 \<le> q" "q \<le> 24" "0 \<le> r" "r \<le> 3"
  shows "DaysInYear (1601 + 400 * era + 100 * c + 4 * q + r)
         = (if r = 3 \<and> (q \<noteq> 24 \<or> c = 3) then 366 else 365)"
proof -
  define y where "y = 1601 + 400 * era + 100 * c + 4 * q + r"
  have e4: "y = 4 * (400 + 100 * era + 25 * c + q) + (r + 1)"
    by (simp add: y_def)
  have e100: "y = 100 * (16 + 4 * era + c) + (4 * q + r + 1)"
    by (simp add: y_def)
  have e400: "y = 400 * (4 + era) + (100 * c + 4 * q + r + 1)"
    by (simp add: y_def)
  have m4: "y mod 4 = (if r = 3 then 0 else r + 1)"
  proof (cases "r = 3")
    case True
    have "y = 4 * (401 + 100 * era + 25 * c + q) + 0" using True by (simp add: y_def)
    from int_mod_pos_eq [OF this] show ?thesis using True by simp
  next
    case False
    have "y mod 4 = r + 1"
      by (rule int_mod_pos_eq [OF e4]) (use assms False in simp_all)
    then show ?thesis using False by simp
  qed
  have m100: "y mod 100 = (if q = 24 \<and> r = 3 then 0 else 4 * q + r + 1)"
  proof (cases "q = 24 \<and> r = 3")
    case True
    have "y = 100 * (17 + 4 * era + c) + 0" using True by (simp add: y_def)
    from int_mod_pos_eq [OF this] show ?thesis using True by simp
  next
    case False
    have "y mod 100 = 4 * q + r + 1"
      by (rule int_mod_pos_eq [OF e100]) (use assms False in auto)
    then show ?thesis using False by simp
  qed
  have m400: "y mod 400 = (if c = 3 \<and> q = 24 \<and> r = 3 then 0 else 100 * c + 4 * q + r + 1)"
  proof (cases "c = 3 \<and> q = 24 \<and> r = 3")
    case True
    have "y = 400 * (5 + era) + 0" using True by (simp add: y_def)
    from int_mod_pos_eq [OF this] show ?thesis using True by simp
  next
    case False
    have "y mod 400 = 100 * c + 4 * q + r + 1"
      by (rule int_mod_pos_eq [OF e400]) (use assms False in auto)
    then show ?thesis using False by simp
  qed
  have "DaysInYear y = (if r = 3 \<and> (q \<noteq> 24 \<or> c = 3) then 366 else 365)"
    unfolding DaysInYear_def m4 m100 m400 using assms by auto
  then show ?thesis by (simp add: y_def)
qed

lemma yearFromDay_bounds:
  "DayFromYear (yearFromDay d) \<le> d \<and>
   d < DayFromYear (yearFromDay d) + DaysInYear (yearFromDay d)"
proof -
  define s where "s = d + 134774"
  define era where "era = s div 146097"
  define doe where "doe = s mod 146097"
  define t where "t = doe div 36524"
  define u where "u = doe mod 36524"
  define c where "c = min 3 t"
  define doc where "doc = doe - 36524 * c"
  define q where "q = doc div 1461"
  define doq where "doq = doc mod 1461"
  define v where "v = doq div 365"
  define w where "w = doq mod 365"
  define r where "r = min 3 v"
  have s: "s = 146097 * era + doe" and doe: "0 \<le> doe" "doe < 146097"
    by (simp_all add: era_def doe_def)
  have tu: "doe = 36524 * t + u" and u: "0 \<le> u" "u < 36524"
    by (simp_all add: t_def u_def)
  have t: "0 \<le> t" "t \<le> 4" using tu u doe by linarith+
  have c: "0 \<le> c" "c \<le> 3" using t by (simp_all add: c_def)
  have doc: "0 \<le> doc" "doc \<le> 36524" "c < 3 \<Longrightarrow> doc < 36524"
    using tu u t doe by (auto simp: doc_def c_def min_def)
  have qd: "doc = 1461 * q + doq" and doq: "0 \<le> doq" "doq < 1461"
    by (simp_all add: q_def doq_def)
  have q: "0 \<le> q" "q \<le> 24" using qd doq doc by linarith+
  have vw: "doq = 365 * v + w" and w: "0 \<le> w" "w < 365"
    by (simp_all add: v_def w_def)
  have v: "0 \<le> v" "v \<le> 4" using vw w doq by linarith+
  have r: "0 \<le> r" "r \<le> 3" using v by (simp_all add: r_def)
  have yfd: "yearFromDay d = 1601 + 400 * era + 100 * c + 4 * q + r"
    unfolding yearFromDay_def Let_def
    by (simp add: s_def era_def doe_def t_def c_def doc_def q_def doq_def v_def r_def
        minus_mult_div_eq_mod)
  have dfy: "DayFromYear (yearFromDay d)
             = 146097 * era + 36524 * c + 1461 * q + 365 * r - 134774"
    unfolding yfd by (rule DayFromYear_shape [OF c q r])
  have diy: "DaysInYear (yearFromDay d) = (if r = 3 \<and> (q \<noteq> 24 \<or> c = 3) then 366 else 365)"
    unfolding yfd by (rule DaysInYear_shape [OF c q r])
  have d: "d = 146097 * era + 36524 * c + 1461 * q + doq - 134774"
    using s qd by (simp add: doc_def s_def)
  have lower: "365 * r \<le> doq" using vw w v by (auto simp: r_def min_def)
  have upper: "doq < 365 * r + (if r = 3 \<and> (q \<noteq> 24 \<or> c = 3) then 366 else 365)"
  proof (cases "r = 3 \<and> (q \<noteq> 24 \<or> c = 3)")
    case True
    then show ?thesis using doq by simp
  next
    case False
    show ?thesis
    proof (cases "r = 3")
      case True
      with False have "q = 24" "c < 3" using c by auto
      then have "doq < 1460" using doc(3) qd by linarith
      then show ?thesis using True False by simp
    next
      case False
      then have "v = r" using r by (auto simp: r_def min_def)
      then show ?thesis using vw w False by simp
    qed
  qed
  show ?thesis unfolding dfy diy using d lower upper by linarith
qed

lemma DaysInYear_pos: "0 < DaysInYear y"
  by (simp add: DaysInYear_def)

lemma DayFromYear_mono_aux: "0 \<le> k \<Longrightarrow> DayFromYear y \<le> DayFromYear (y + k)"
proof (induction k rule: int_ge_induct)
  case base
  show ?case by simp
next
  case (step i)
  have "DayFromYear (y + (i + 1)) = DayFromYear (y + i) + DaysInYear (y + i)"
    using DayFromYear_Suc [of "y + i"] by (simp add: add.assoc)
  then show ?case using step.IH DaysInYear_pos [of "y + i"] by linarith
qed

lemma DayFromYear_mono: "y \<le> z \<Longrightarrow> DayFromYear y \<le> DayFromYear z"
  using DayFromYear_mono_aux [of "z - y" y] by simp

lemma yearFromDay_unique:
  assumes "DayFromYear y \<le> d" and "d < DayFromYear y + DaysInYear y"
  shows "yearFromDay d = y"
proof -
  define z where "z = yearFromDay d"
  have z: "DayFromYear z \<le> d" "d < DayFromYear (z + 1)"
    using yearFromDay_bounds [of d] by (simp_all add: z_def DayFromYear_Suc)
  have y: "d < DayFromYear (y + 1)" using assms by (simp add: DayFromYear_Suc)
  have "\<not> z < y"
  proof
    assume "z < y"
    then have "DayFromYear (z + 1) \<le> DayFromYear y" by (intro DayFromYear_mono) simp
    then show False using z assms by linarith
  qed
  moreover have "\<not> y < z"
  proof
    assume "y < z"
    then have "DayFromYear (y + 1) \<le> DayFromYear z" by (intro DayFromYear_mono) simp
    then show False using z y by linarith
  qed
  ultimately show ?thesis by (simp add: z_def)
qed

subsection \<open>Months and days of the month\<close>

lemma Day_MakeDate: "0 \<le> tm \<Longrightarrow> tm < msPerDay \<Longrightarrow> Day (MakeDate d tm) = d"
  unfolding Day_def MakeDate_def
  by (rule int_div_pos_eq [of _ _ _ tm]) (simp_all add: mult.commute)

lemma TimeWithinDay_MakeDate:
  "0 \<le> tm \<Longrightarrow> tm < msPerDay \<Longrightarrow> TimeWithinDay (MakeDate d tm) = tm"
  unfolding TimeWithinDay_def MakeDate_def
  by (rule int_mod_pos_eq [of _ _ d]) (simp_all add: mult.commute)

lemma DaysInYear_leapDays: "DaysInYear y = 365 + leapDays y"
  by (simp add: leapDays_def DaysInYear_def)

lemma leapDays_cases: "leapDays y = 0 \<or> leapDays y = 1"
  by (simp add: leapDays_def)

lemma month_cases:
  fixes m :: int
  assumes "0 \<le> m" "m \<le> 11"
  obtains "m = 0" | "m = 1" | "m = 2" | "m = 3" | "m = 4" | "m = 5"
    | "m = 6" | "m = 7" | "m = 8" | "m = 9" | "m = 10" | "m = 11"
proof -
  have "m = 0 \<or> m = 1 \<or> m = 2 \<or> m = 3 \<or> m = 4 \<or> m = 5
      \<or> m = 6 \<or> m = 7 \<or> m = 8 \<or> m = 9 \<or> m = 10 \<or> m = 11"
    using assms by presburger
  then show thesis using that by blast
qed

lemma monthStart_step:
  assumes "0 \<le> m" "m \<le> 11" "L = 0 \<or> L = 1"
  shows "monthStart m L + 28 \<le> monthStart (m + 1) L"
  using assms(1,2)
  by (cases m rule: month_cases) (use assms(3) in \<open>auto simp: monthStart_def\<close>)

lemma monthStart_bounds:
  assumes "0 \<le> m" "m \<le> 11" "L = 0 \<or> L = 1"
  shows "0 \<le> monthStart m L" "monthStart (m + 1) L \<le> 365 + L"
  using assms(1,2)
  by (cases m rule: month_cases; use assms(3) in \<open>auto simp: monthStart_def\<close>)+

lemma monthOfYearDay_monthStart:
  assumes "0 \<le> m" "m \<le> 11" "L = 0 \<or> L = 1"
    and "monthStart m L \<le> d" "d < monthStart (m + 1) L"
  shows "monthOfYearDay d L = m"
  using assms(1,2)
  by (cases m rule: month_cases)
     (use assms(3,4,5) in \<open>auto simp: monthStart_def monthOfYearDay_def\<close>)

lemma monthOfYearDay_spec:
  assumes "0 \<le> d" "d < 365 + L" "L = 0 \<or> L = 1"
  shows "monthStart (monthOfYearDay d L) L \<le> d"
    and "d < monthStart (monthOfYearDay d L + 1) L"
  using assms by (auto simp: monthStart_def monthOfYearDay_def)

lemma DayWithinYear_range: "0 \<le> DayWithinYear t" "DayWithinYear t < 365 + InLeapYear t"
  using yearFromDay_bounds [of "Day t"]
  by (simp_all add: DayWithinYear_def YearFromTime_def InLeapYear_def DaysInYear_leapDays)

lemma DateFromTime_range:
  "1 \<le> DateFromTime t"
  "DateFromTime t \<le> monthStart (MonthFromTime t + 1) (InLeapYear t)
                       - monthStart (MonthFromTime t) (InLeapYear t)"
  using monthOfYearDay_spec [OF DayWithinYear_range, of t] leapDays_cases [of "YearFromTime t"]
  by (simp_all add: DateFromTime_def MonthFromTime_def InLeapYear_def)

lemma civil_of_day:
  assumes m: "0 \<le> m" "m \<le> 11"
    and dt: "1 \<le> dt" "dt \<le> monthStart (m + 1) (leapDays y) - monthStart m (leapDays y)"
    and day: "Day t = DayFromYear y + monthStart m (leapDays y) + dt - 1"
  shows "YearFromTime t = y" and "MonthFromTime t = m" and "DateFromTime t = dt"
proof -
  define L where "L = leapDays y"
  have L: "L = 0 \<or> L = 1" using leapDays_cases [of y] by (simp add: L_def)
  define k where "k = monthStart m L + dt - 1"
  have k: "monthStart m L \<le> k" "k < monthStart (m + 1) L"
    using dt by (simp_all add: k_def L_def)
  have k0: "0 \<le> k" "k < DaysInYear y"
    using k monthStart_bounds [OF m L] by (simp_all add: DaysInYear_leapDays L_def)
  have d: "Day t = DayFromYear y + k" using day by (simp add: k_def L_def)
  show y: "YearFromTime t = y"
    unfolding YearFromTime_def using k0 by (intro yearFromDay_unique) (simp_all add: d)
  have dwy: "DayWithinYear t = k" by (simp add: DayWithinYear_def y d)
  have leap: "InLeapYear t = L" by (simp add: InLeapYear_def y L_def)
  show mo: "MonthFromTime t = m"
    unfolding MonthFromTime_def dwy leap by (rule monthOfYearDay_monthStart [OF m L k])
  show "DateFromTime t = dt"
    unfolding DateFromTime_def dwy leap mo by (simp add: k_def)
qed

subsection \<open>The days of an interval\<close>

lemma Day_start: "Day (k * msPerDay) = k"
  by (simp add: Day_def msPerDay_def)

lemma day_le_iff: "k * msPerDay \<le> e \<longleftrightarrow> k \<le> Day e"
proof -
  define q r where "q = e div 86400000" and "r = e mod 86400000"
  have "e = 86400000 * q + r" "0 \<le> r" "r < 86400000"
    by (simp_all add: q_def r_def)
  then show ?thesis
    unfolding Day_def msPerDay_def q_def [symmetric] by linarith
qed

lemma eachDay_loop_upto:
  "eachDay_loop (d * msPerDay) e = map (\<lambda>k. k * msPerDay) [d..Day e]"
proof (induction "nat (Day e + 1 - d)" arbitrary: d)
  case 0
  then have "\<not> d \<le> Day e" by simp
  then show ?case
    by (subst eachDay_loop.simps) (simp add: getTime_def day_le_iff)
next
  case (Suc n)
  then have le: "d \<le> Day e" by simp
  have n: "n = nat (Day e + 1 - (d + 1))" using Suc.hyps(2) by simp
  have "eachDay_loop (d * msPerDay) e
        = d * msPerDay # eachDay_loop ((d + 1) * msPerDay) e"
    by (subst eachDay_loop.simps)
       (simp add: getTime_def day_le_iff le next_day_start Day_start)
  also have "\<dots> = d * msPerDay # map (\<lambda>k. k * msPerDay) [d + 1..Day e]"
    using Suc.hyps(1) [OF n] by simp
  also have "\<dots> = map (\<lambda>k. k * msPerDay) [d..Day e]"
    using le by (simp add: upto_rec1 [of d])
  finally show ?case .
qed

lemma workdays_closed:
  assumes "start \<le> endDate"
  shows "workdays start endDate
         = Inr (map (\<lambda>k. k * msPerDay)
                  (filter (\<lambda>k. (k + 4) mod 7 \<noteq> 0 \<and> (k + 4) mod 7 \<noteq> 6)
                     [Day start..Day endDate]))"
  using assms
  by (simp add: workdays_def eachDayOfInterval_def getTime_def setHours_start
      eachDay_loop_upto filter_map comp_def isWeekend_def getDay_def WeekDay_def Day_start
      Let_def)

lemma later_day_not_before:
  assumes "Day today < Day w"
  shows "today \<le> w"
proof -
  have "(Day today + 1) * msPerDay \<le> w"
    using assms by (simp add: day_le_iff)
  moreover have "today < (Day today + 1) * msPerDay"
    using Day_TimeWithinDay [of today] TimeWithinDay_range [of today]
    by (simp add: algebra_simps)
  ultimately show ?thesis by linarith
qed

lemma getStatus_NotYet_if:
  "\<not> isBefore (at_index weekDays index) today \<Longrightarrow>
   getStatus weekDays today employeeId index = statusOnly NotYet"
  by (simp add: getStatus_def)

section \<open>The synthetic backend\<close>

text \<open>
  C1. As stated (every workday on or after today gets "Not Yet"), the claim fails for
  today's own column: the workday is the midnight that starts today, and
  \<^verbatim>\<open>isBefore(weekDays[index], today)\<close> compares it with the instant of generation, so on
  Wednesday 6 March 2024 at 09:00 the only workday of the range [today, today] is
  before \<^verbatim>\<open>today\<close> and employee 1 gets "Vacation" at index 0.
\<close>

theorem getStatus_today_counterexample:
  "workdays 1709715600000 1709715600000 = Inr [1709683200000]
   \<and> Day 1709683200000 = Day 1709715600000
   \<and> getStatus [1709683200000] 1709715600000 1 0
       = \<lparr>status = Vacation, checkInTime = None, comment = None\<rparr>"
  by (simp add: workdays_closed Day_def msPerDay_def getStatus_def at_index_def getTime_def
      statusOnly_def)

lemma getStatus_pattern:
  assumes "isBefore (at_index weekDays index) today" and "employeeId \<in> {1, 2, 3}"
  shows "status (getStatus weekDays today employeeId index) \<noteq> NotYet"
proof -
  have "index mod 5 < 5" by simp
  then have "index mod 5 = 0 \<or> index mod 5 = 1 \<or> index mod 5 = 2 \<or> index mod 5 = 3
             \<or> index mod 5 = 4"
    by arith
  then have "status (let statuses = [Present, Absent, Late, Vacation, OfficialLeave];
                         st = statuses ! (index mod 5)
                     in if st = Present then statusAt st ''09:50''
                        else if st = Late then statusAt st ''10:15''
                        else statusOnly st) \<noteq> NotYet"
    by (elim disjE) (simp_all add: statusAt_def statusOnly_def)
  then show ?thesis
    using assms by (auto simp: getStatus_def statusAt_def statusOnly_def)
qed

text \<open>
  C1, amended. For every employee id and every index of \<open>weekDays\<close>: when the workday
  at that index is not before the instant of generation, as is every workday on a
  calendar day after today's, \<^verbatim>\<open>getStatus\<close> returns status "Not Yet" with no check-in
  time and no comment; when it is before that instant, as today's own workday is
  unless the data is generated at midnight, employees 1, 2 and 3 get a status of their
  pattern, never "Not Yet".
\<close>

theorem getStatus_not_before_today:
  assumes "index < length weekDays"
  shows "(getTime today \<le> getTime (weekDays ! index) \<or> Day today < Day (weekDays ! index) \<longrightarrow>
            getStatus weekDays today employeeId index
            = \<lparr>status = NotYet, checkInTime = None, comment = None\<rparr>)
       \<and> (getTime (weekDays ! index) < getTime today \<and> employeeId \<in> {1, 2, 3} \<longrightarrow>
            status (getStatus weekDays today employeeId index) \<noteq> NotYet)"
proof (intro conjI impI)
  assume "getTime today \<le> getTime (weekDays ! index) \<or> Day today < Day (weekDays ! index)"
  then have "today \<le> weekDays ! index"
    using later_day_not_before [of today "weekDays ! index"] by (auto simp: getTime_def)
  then have "\<not> isBefore (at_index weekDays index) today"
    using assms by (simp add: at_index_def getTime_def)
  then show "getStatus weekDays today employeeId index
             = \<lparr>status = NotYet, checkInTime = None, comment = None\<rparr>"
    by (simp add: getStatus_NotYet_if statusOnly_def)
next
  assume "getTime (weekDays ! index) < getTime today \<and> employeeId \<in> {1, 2, 3}"
  then show "status (getStatus weekDays today employeeId index) \<noteq> NotYet"
    using assms by (intro getStatus_pattern) (simp_all add: at_index_def)
qed

theorem getStatus_not_before_today_witness:
  "(0::nat) < length [1709769600000 :: int]
   \<and> Day 1709715600000 < Day ([1709769600000] ! 0)
   \<and> getStatus [1709769600000] 1709715600000 1 0
       = \<lparr>status = NotYet, checkInTime = None, comment = None\<rparr>
   \<and> (0::nat) < length [1709683200000 :: int]
   \<and> getTime ([1709683200000] ! 0) < getTime 1709715600000
   \<and> (1::int) \<in> {1, 2, 3}
   \<and> status (getStatus [1709683200000] 1709715600000 1 0) \<noteq> NotYet"
  using getStatus_not_before_today [of 0 "[1709769600000]" 1709715600000 1]
    getStatus_not_before_today [of 0 "[1709683200000]" 1709715600000 1]
  by (simp add: Day_def msPerDay_def getTime_def)

text \<open>
  C10. For every index whose workday is strictly before today and every employee id
  other than 1, 2 and 3, \<^verbatim>\<open>getStatus\<close> returns status "Not Yet" with no check-in time
  and no comment, and \<^verbatim>\<open>handleEdit\<close> on such a cell leaves the state as it is.
\<close>

theorem getStatus_unknown_employee:
  assumes "index < length weekDays"
    and "getTime (weekDays ! index) < getTime today"
    and "employeeId \<notin> {1, 2, 3}"
  shows "getStatus weekDays today employeeId index
         = \<lparr>status = NotYet, checkInTime = None, comment = None\<rparr>
       \<and> handleEdit employeeId (weekDays ! index)
           (status (getStatus weekDays today employeeId index)) s = s"
  using assms by (simp add: getStatus_def statusOnly_def handleEdit_def)

theorem getStatus_unknown_employee_witness:
  "(0::nat) < length [1709683200000 :: int]
   \<and> getTime ([1709683200000] ! 0) < getTime 1709715600000
   \<and> (7::int) \<notin> {1, 2, 3}
   \<and> getStatus [1709683200000] 1709715600000 7 0
       = \<lparr>status = NotYet, checkInTime = None, comment = None\<rparr>"
  using getStatus_unknown_employee [of 0 "[1709683200000]" 1709715600000 7]
  by (simp add: getTime_def)

section \<open>Leave days and edits in the page with the synthetic data\<close>

text \<open>
  C5. For every change among +1, +0.5, -0.5 and -1: if no employee has a negative
  balance, none has one after \<^verbatim>\<open>handleVacationDayChange\<close> (the new balance is
  \<open>max 0 (balance + change)\<close>). The -0.5 button is disabled exactly when the balance is
  below 0.5 and the -1 button exactly when it is below 1, the two other buttons never;
  so with a balance that is not negative, no enabled button reaches the clamp.
\<close>

theorem handleVacationDayChange_nonneg:
  assumes "change \<in> {1, 1 / 2, - (1 / 2), - 1}"
    and "list_all (\<lambda>e. 0 \<le> remainingVacationDays e) (attendanceData s)"
  shows "list_all (\<lambda>e. 0 \<le> remainingVacationDays e)
           (attendanceData (handleVacationDayChange employeeId change s))
       \<and> map (\<lambda>b. (clickChange b, disabled b)) (vacationButtons employee)
           = [(1, False), (1 / 2, False),
              (- (1 / 2), remainingVacationDays employee < 1 / 2),
              (- 1, remainingVacationDays employee < 1)]
       \<and> (0 \<le> remainingVacationDays employee \<longrightarrow>
            list_all (\<lambda>b. disabled b \<or> 0 \<le> remainingVacationDays employee + clickChange b)
              (vacationButtons employee))"
  using assms(2)
  by (auto simp: handleVacationDayChange_def vacationButtons_def list_all_iff)

theorem handleVacationDayChange_nonneg_witness:
  "(- 1 :: rat) \<in> {1, 1 / 2, - (1 / 2), - 1}
   \<and> list_all (\<lambda>e. 0 \<le> remainingVacationDays e) (attendanceData (stateOf [bob]))
   \<and> 0 \<le> remainingVacationDays bob
   \<and> map remainingVacationDays
         (attendanceData (handleVacationDayChange 3 (- 1) (stateOf [bob]))) = [0]
   \<and> list_all (\<lambda>e. 0 \<le> remainingVacationDays e)
         (attendanceData (handleVacationDayChange 3 (- 1) (stateOf [bob])))
   \<and> map disabled (vacationButtons bob) = [False, False, False, True]"
  using handleVacationDayChange_nonneg [of "- 1" "stateOf [bob]" 3 bob]
  by (simp add: stateOf_def bob_def handleVacationDayChange_def vacationButtons_def)

lemma saveEdit_active:
  assumes "editEmployeeId s = Some E" "E \<noteq> 0" "editDate s = Some D"
  shows "saveEdit s =
     s\<lparr>attendanceData :=
         map (\<lambda>employee.
                if id' employee = E
                then employee\<lparr>attendance :=
                       map (\<lambda>a. if date a = D then a\<lparr>status := editStatus s\<rparr> else a)
                           (attendance employee)\<rparr>
                else employee)
             (attendanceData s),
        editEmployeeId := None, editDate := None, editStatus := Present\<rparr>"
  using assms by (simp add: saveEdit_def truthy_def getTime_def)

text \<open>
  C6. With an edit session open for employee \<open>E\<close> (an id of the page, so not 0), date
  \<open>D\<close> and status \<open>S\<close>, \<^verbatim>\<open>saveEdit\<close> closes the session and leaves the range, the view
  mode and the other state as they are. The table keeps its rows and every row its id,
  name, balance, fine and number of entries; a row of another employee is unchanged;
  every entry keeps its date, check-in time and comment, and its status is \<open>S\<close> when it
  is an entry of \<open>E\<close> dated \<open>D\<close> and unchanged otherwise.
\<close>

theorem saveEdit_frame:
  assumes "editEmployeeId s = Some E" and "E \<noteq> 0" and "editDate s = Some D"
    and "editStatus s = S"
  shows "editEmployeeId (saveEdit s) = None \<and> editDate (saveEdit s) = None
       \<and> editStatus (saveEdit s) = Present
       \<and> dateRange (saveEdit s) = dateRange s \<and> viewMode (saveEdit s) = viewMode s
       \<and> isLoading (saveEdit s) = isLoading s \<and> showFines (saveEdit s) = showFines s
       \<and> length (attendanceData (saveEdit s)) = length (attendanceData s)
       \<and> (\<forall>i < length (attendanceData s).
            let e = attendanceData s ! i; e' = attendanceData (saveEdit s) ! i
            in id' e' = id' e \<and> name e' = name e
             \<and> remainingVacationDays e' = remainingVacationDays e
             \<and> accumulatedFine e' = accumulatedFine e
             \<and> length (attendance e') = length (attendance e)
             \<and> (id' e \<noteq> E \<longrightarrow> e' = e)
             \<and> (\<forall>j < length (attendance e).
                  let a = attendance e ! j; a' = attendance e' ! j
                  in date a' = date a \<and> checkInTime a' = checkInTime a
                   \<and> comment a' = comment a
                   \<and> status a' = (if id' e = E \<and> date a = D then S else status a)))"
  unfolding saveEdit_active [OF assms(1,2,3)] using assms(4)
  by (simp add: Let_def)

theorem saveEdit_frame_witness:
  "editEmployeeId editing = Some 1 \<and> (1::int) \<noteq> 0
   \<and> editDate editing = Some 1709596800000 \<and> editStatus editing = Absent
   \<and> attendanceData (saveEdit editing)
       = [john\<lparr>attendance :=
                 [\<lparr>status = Vacation, checkInTime = None, comment = None,
                    date = 1709510400000\<rparr>,
                  \<lparr>status = Absent, checkInTime = Some ''09:40'', comment = None,
                    date = 1709596800000\<rparr>]\<rparr>,
          jane]
   \<and> editEmployeeId (saveEdit editing) = None \<and> editDate (saveEdit editing) = None
   \<and> editStatus (saveEdit editing) = Present"
  using saveEdit_frame [of editing 1 1709596800000 Absent]
  by (simp add: editing_def handleEdit_def stateOf_def saveEdit_def truthy_def getTime_def
      john_def jane_def)

section \<open>The columns of the table\<close>

lemma isWeekend_start: "isWeekend (k * msPerDay) = (\<not> isWorkdayNo k)"
  by (simp add: isWeekend_def getDay_def WeekDay_def Day_start isWorkdayNo_def Let_def)

lemma week_upto: "[d..d + 6] = [d, d + 1, d + 2, d + 3, d + 4, d + 5, d + 6]"
  by (simp add: upto_rec1)

lemma five_workdays: "length (filter isWorkdayNo [d..d + 6]) = 5"
proof -
  define m where "m = (d + 4) mod 7"
  have m: "0 \<le> m" "m < 7" by (simp_all add: m_def)
  have sh: "(d + i + 4) mod 7 = (m + i) mod 7" for i
  proof -
    have "(d + i + 4) mod 7 = ((d + 4) + i) mod 7" by (simp add: algebra_simps)
    also have "\<dots> = ((d + 4) mod 7 + i) mod 7" by (simp add: mod_add_left_eq)
    finally show ?thesis by (simp add: m_def)
  qed
  have w: "isWorkdayNo (d + i) = ((m + i) mod 7 \<noteq> 0 \<and> (m + i) mod 7 \<noteq> 6)" for i
    using sh [of i] by (simp add: isWorkdayNo_def add.commute add.left_commute)
  have w0: "isWorkdayNo d = (m mod 7 \<noteq> 0 \<and> m mod 7 \<noteq> 6)"
    using w [of 0] by simp
  have "m = 0 \<or> m = 1 \<or> m = 2 \<or> m = 3 \<or> m = 4 \<or> m = 5 \<or> m = 6"
    using m by presburger
  then show ?thesis
    unfolding week_upto by (elim disjE) (simp_all add: w w0)
qed


lemma workdays_days:
  assumes "getTime start \<le> getTime endDate"
  shows "workdays start endDate
         = Inr (map (\<lambda>k. MakeDate k 0) (filter isWorkdayNo [Day start..Day endDate]))"
  using assms
  by (simp add: workdays_closed getTime_def MakeDate_def isWorkdayNo_def [abs_def])

lemma midnights_ascending: "sorted_wrt (<) (map (\<lambda>k. MakeDate k 0) (filter P [i..j]))"
proof -
  have "sorted_wrt (<) [i..j]"
    using sorted_upto [of i j] distinct_upto [of i j] by (simp add: strict_sorted_iff)
  then have "sorted_wrt (<) (filter P [i..j])" by (rule sorted_wrt_filter)
  then show ?thesis
    by (rule sorted_wrt_map_mono) (simp add: MakeDate_def msPerDay_def)
qed

text \<open>
  C4. For a range whose start is not after its end, the columns are computed without an
  error and are the midnights of the days from the start's day to the end's day, in
  that order, with the Saturdays and Sundays filtered out and nothing else: the list is
  strictly ascending, no date in it is a Saturday or a Sunday, and when the range spans
  seven consecutive days it has exactly five dates.
\<close>

theorem workdays_spec:
  assumes "getTime start \<le> getTime endDate"
  shows "case workdays start endDate of
           Inl e \<Rightarrow> False
         | Inr ds \<Rightarrow>
             ds = filter (\<lambda>d. \<not> isWeekend d) (map (\<lambda>k. MakeDate k 0) [Day start..Day endDate])
             \<and> sorted_wrt (<) ds
             \<and> (\<forall>d \<in> set ds. getDay d \<noteq> 0 \<and> getDay d \<noteq> 6)
             \<and> (Day endDate = Day start + 6 \<longrightarrow> length ds = 5)"
proof -
  define ds where "ds = map (\<lambda>k. MakeDate k 0) (filter isWorkdayNo [Day start..Day endDate])"
  have w: "workdays start endDate = Inr ds"
    unfolding ds_def by (rule workdays_days [OF assms])
  have a: "ds = filter (\<lambda>d. \<not> isWeekend d) (map (\<lambda>k. MakeDate k 0) [Day start..Day endDate])"
    using isWeekend_start by (simp add: ds_def filter_map comp_def MakeDate_def)
  have b: "sorted_wrt (<) ds"
    unfolding ds_def by (rule midnights_ascending)
  have c: "\<forall>d \<in> set ds. getDay d \<noteq> 0 \<and> getDay d \<noteq> 6"
    unfolding a by (auto simp: isWeekend_def Let_def)
  have d: "Day endDate = Day start + 6 \<longrightarrow> length ds = 5"
    by (simp add: ds_def five_workdays)
  show ?thesis using a b c d by (simp add: w)
qed

theorem workdays_spec_witness:
  "getTime 1709424000000 \<le> getTime 1710028799999
   \<and> Day 1710028799999 = Day 1709424000000 + 6
   \<and> workdays 1709424000000 1710028799999
       = Inr [1709510400000, 1709596800000, 1709683200000, 1709769600000, 1709856000000]
   \<and> map getDay [1709510400000, 1709596800000, 1709683200000, 1709769600000, 1709856000000]
       = [1, 2, 3, 4, 5]
   \<and> sorted_wrt (<)
        [1709510400000, 1709596800000, 1709683200000, 1709769600000, 1709856000000 :: int]"
proof -
  have h: "getTime 1709424000000 \<le> getTime 1710028799999"
    by (simp add: getTime_def)
  have k: "Day 1710028799999 = Day 1709424000000 + 6"
    by (simp add: Day_def msPerDay_def)
  have w: "workdays 1709424000000 1710028799999
           = Inr [1709510400000, 1709596800000, 1709683200000, 1709769600000, 1709856000000]"
    by (simp add: workdays_closed Day_def msPerDay_def upto_rec1)
  have g: "map getDay [1709510400000, 1709596800000, 1709683200000, 1709769600000,
             1709856000000] = [1, 2, 3, 4, 5]"
    by (simp add: getDay_def WeekDay_def Day_def msPerDay_def)
  from workdays_spec [OF h] have "sorted_wrt (<)
        [1709510400000, 1709596800000, 1709683200000, 1709769600000, 1709856000000 :: int]"
    unfolding w sum.case by blast
  with h k w g show ?thesis by simp
qed

section \<open>The range selector\<close>

text \<open>
  \<^verbatim>\<open>handleViewModeChange\<close> is the same function in page.tsx and tmp.tsx. With no options
  the week of date-fns starts on Sunday: \<^verbatim>\<open>startOfWeek\<close> goes back \<^verbatim>\<open>getDay\<close> days and
  \<^verbatim>\<open>endOfWeek\<close> forward to day 6.
\<close>

lemma Day_shift: "Day (t + k * msPerDay) = Day t + k"
proof -
  have "t + k * msPerDay = msPerDay * (Day t + k) + TimeWithinDay t"
    using Day_TimeWithinDay [of t] by (simp add: algebra_simps)
  from int_div_pos_eq [OF this TimeWithinDay_range] show ?thesis by (simp add: Day_def)
qed

lemma TimeWithinDay_shift: "TimeWithinDay (t + k * msPerDay) = TimeWithinDay t"
  by (simp add: TimeWithinDay_def)

lemma getDay_range: "0 \<le> getDay t" "getDay t < 7"
  by (simp_all add: getDay_def WeekDay_def)

lemma startOfWeek_default: "startOfWeek t None = MakeDate (Day t - getDay t) 0"
proof -
  have "setDate t (getDate t - getDay t) = t + (- getDay t) * msPerDay"
    using setDate_shift [of t "- getDay t"] by simp
  then show ?thesis
    using getDay_range [of t] Day_shift [of t "- getDay t"]
    by (simp add: startOfWeek_def weekStartsOn_of_def Let_def setHours_start MakeDate_def)
qed

lemma endOfWeek_default: "endOfWeek t None = MakeDate (Day t - getDay t + 6) (msPerDay - 1)"
proof -
  have "setDate t (getDate t + (6 - getDay t)) = t + (6 - getDay t) * msPerDay"
    by (rule setDate_shift)
  then show ?thesis
    using getDay_range [of t] Day_shift [of t "6 - getDay t"]
    by (simp add: endOfWeek_def weekStartsOn_of_def Let_def setHours_def MakeDate_def
        MakeTime_def msPerDay_def)
qed

lemma week_range:
  "getDay (startOfWeek t None) = 0"
  "TimeWithinDay (startOfWeek t None) = 0"
  "endOfWeek t None = startOfWeek t None + 7 * msPerDay - 1"
  "startOfWeek t None \<le> t"
  "t \<le> endOfWeek t None"
proof -
  define w where "w = getDay t"
  have w: "0 \<le> w" "w < 7" using getDay_range [of t] by (simp_all add: w_def)
  have s: "startOfWeek t None = (Day t - w) * msPerDay"
    by (simp add: startOfWeek_default MakeDate_def w_def)
  have e: "endOfWeek t None = (Day t - w + 6) * msPerDay + (msPerDay - 1)"
    by (simp add: endOfWeek_default MakeDate_def w_def)
  have "(Day t - w + 4) mod 7 = ((Day t + 4) - (Day t + 4) mod 7) mod 7"
    by (simp add: w_def getDay_def WeekDay_def algebra_simps)
  also have "\<dots> = 0" by (simp add: minus_mod_eq_mult_div)
  finally show "getDay (startOfWeek t None) = 0"
    by (simp add: s getDay_def WeekDay_def Day_start)
  show "TimeWithinDay (startOfWeek t None) = 0"
    by (simp add: s TimeWithinDay_def)
  show "endOfWeek t None = startOfWeek t None + 7 * msPerDay - 1"
    by (simp add: s e algebra_simps)
  have t: "t = Day t * msPerDay + TimeWithinDay t" by (simp add: Day_TimeWithinDay)
  have r: "0 \<le> TimeWithinDay t" "TimeWithinDay t < msPerDay" by (rule TimeWithinDay_range)+
  have "(Day t - w) * msPerDay \<le> Day t * msPerDay"
    using w msPerDay_pos by (simp add: mult_right_mono)
  then show "startOfWeek t None \<le> t" using t r unfolding s by linarith
  have "Day t * msPerDay \<le> (Day t - w + 6) * msPerDay"
    using w msPerDay_pos by (simp add: mult_right_mono)
  then show "t \<le> endOfWeek t None" using t r unfolding e by linarith
qed

lemma monthStart_12: "monthStart 12 L = 365 + L"
  by (simp add: monthStart_def)

lemma MakeDay_month_end:
  assumes "0 \<le> m" "m \<le> 11"
  shows "MakeDay y (m + 1) 0 = DayFromYear y + monthStart (m + 1) (leapDays y) - 1"
proof (cases "m = 11")
  case True
  have "MakeDay y 12 0 = DayFromYear (y + 1) - 1"
    by (simp add: MakeDay_def monthStart_def)
  then show ?thesis
    using True by (simp add: DayFromYear_Suc DaysInYear_leapDays monthStart_12)
next
  case False
  then have "0 \<le> m + 1" "m + 1 \<le> 11" using assms by simp_all
  from MakeDay_in_year [OF this] show ?thesis by simp
qed

lemma fields_of_MakeDate:
  assumes "0 \<le> m" "m \<le> 11"
    and "1 \<le> dt" "dt \<le> monthStart (m + 1) (leapDays y) - monthStart m (leapDays y)"
    and "0 \<le> tm" "tm < msPerDay"
  shows "getFullYear (MakeDate (MakeDay y m dt) tm) = y
       \<and> getMonth (MakeDate (MakeDay y m dt) tm) = m
       \<and> getDate (MakeDate (MakeDay y m dt) tm) = dt
       \<and> TimeWithinDay (MakeDate (MakeDay y m dt) tm) = tm"
proof -
  have d: "Day (MakeDate (MakeDay y m dt) tm)
           = DayFromYear y + monthStart m (leapDays y) + dt - 1"
    unfolding Day_MakeDate [OF assms(5,6)] by (rule MakeDay_in_year [OF assms(1,2)])
  show ?thesis
    using civil_of_day [OF assms(1,2,3,4) d] TimeWithinDay_MakeDate [OF assms(5,6)]
    by (simp add: getFullYear_def getMonth_def getDate_def)
qed

lemma startOfMonth_eq:
  "startOfMonth t = MakeDate (MakeDay (YearFromTime t) (MonthFromTime t) 1) 0"
proof -
  have "Day (setDate t 1) = MakeDay (YearFromTime t) (MonthFromTime t) 1"
    unfolding setDate_def by (rule Day_MakeDate [OF TimeWithinDay_range])
  then show ?thesis
    by (simp add: startOfMonth_def setHours_start MakeDate_def)
qed

lemma endOfMonth_eq:
  "endOfMonth t = MakeDate (MakeDay (YearFromTime t) (MonthFromTime t + 1) 0) (msPerDay - 1)"
proof -
  have "Day (setFullYear t (YearFromTime t) (MonthFromTime t + 1) 0)
        = MakeDay (YearFromTime t) (MonthFromTime t + 1) 0"
    unfolding setFullYear_def by (rule Day_MakeDate [OF TimeWithinDay_range])
  then show ?thesis
    by (simp add: endOfMonth_def Let_def setHours_def getFullYear_def getMonth_def
        MakeTime_def msPerDay_def)
qed

lemma month_length:
  "28 \<le> monthStart (MonthFromTime t + 1) (InLeapYear t)
          - monthStart (MonthFromTime t) (InLeapYear t)"
  using monthStart_step [OF MonthFromTime_range, of "InLeapYear t" t]
    leapDays_cases [of "YearFromTime t"]
  by (simp add: InLeapYear_def)

lemma month_range:
  "getFullYear (startOfMonth t) = getFullYear t"
  "getMonth (startOfMonth t) = getMonth t"
  "getDate (startOfMonth t) = 1"
  "TimeWithinDay (startOfMonth t) = 0"
  "getFullYear (endOfMonth t) = getFullYear t"
  "getMonth (endOfMonth t) = getMonth t"
  "TimeWithinDay (endOfMonth t) = msPerDay - 1"
  "getDate (endOfMonth t + 1) = 1"
  "startOfMonth t \<le> t"
  "t \<le> endOfMonth t"
proof -
  define Y M L where "Y = YearFromTime t" and "M = MonthFromTime t" and "L = leapDays Y"
  define n where "n = monthStart (M + 1) L - monthStart M L"
  have M: "0 \<le> M" "M \<le> 11" using MonthFromTime_range [of t] by (simp_all add: M_def)
  have L: "L = 0 \<or> L = 1" using leapDays_cases [of Y] by (simp add: L_def)
  have n: "28 \<le> n" using month_length [of t] by (simp add: n_def M_def L_def Y_def InLeapYear_def)
  have D: "1 \<le> DateFromTime t" "DateFromTime t \<le> n"
    using DateFromTime_range [of t] by (simp_all add: n_def M_def L_def Y_def InLeapYear_def)
  have last: "MakeDay Y (M + 1) 0 = MakeDay Y M n"
    by (simp add: MakeDay_month_end [OF M] MakeDay_in_year [OF M] n_def L_def)
  have s: "startOfMonth t = MakeDate (MakeDay Y M 1) 0"
    by (simp add: startOfMonth_eq Y_def M_def)
  have e: "endOfMonth t = MakeDate (MakeDay Y M n) (msPerDay - 1)"
    using last by (simp add: endOfMonth_eq Y_def M_def)
  have fs: "getFullYear (startOfMonth t) = Y \<and> getMonth (startOfMonth t) = M
            \<and> getDate (startOfMonth t) = 1 \<and> TimeWithinDay (startOfMonth t) = 0"
    unfolding s using n by (intro fields_of_MakeDate M) (simp_all add: n_def L_def msPerDay_def)
  have fe: "getFullYear (endOfMonth t) = Y \<and> getMonth (endOfMonth t) = M
            \<and> getDate (endOfMonth t) = n \<and> TimeWithinDay (endOfMonth t) = msPerDay - 1"
    unfolding e using n by (intro fields_of_MakeDate M) (simp_all add: n_def L_def msPerDay_def)
  show "getFullYear (startOfMonth t) = getFullYear t" "getMonth (startOfMonth t) = getMonth t"
    "getDate (startOfMonth t) = 1" "TimeWithinDay (startOfMonth t) = 0"
    "getFullYear (endOfMonth t) = getFullYear t" "getMonth (endOfMonth t) = getMonth t"
    "TimeWithinDay (endOfMonth t) = msPerDay - 1"
    using fs fe by (simp_all add: getFullYear_def getMonth_def Y_def M_def)
  have next1: "endOfMonth t + 1 = MakeDate (MakeDay Y (M + 1) 1) 0"
    by (simp add: endOfMonth_eq Y_def M_def MakeDate_def MakeDay_def Let_def algebra_simps)
  show "getDate (endOfMonth t + 1) = 1"
  proof (cases "M = 11")
    case True
    have "MakeDay Y 12 1 = MakeDay (Y + 1) 0 1" by (simp add: MakeDay_def)
    then have "endOfMonth t + 1 = MakeDate (MakeDay (Y + 1) 0 1) 0"
      using next1 True by simp
    moreover have "getDate (MakeDate (MakeDay (Y + 1) 0 1) 0) = 1"
      using fields_of_MakeDate [of 0 1 "Y + 1" 0] leapDays_cases [of "Y + 1"]
      by (simp add: monthStart_def msPerDay_def)
    ultimately show ?thesis by simp
  next
    case False
    then have M1: "0 \<le> M + 1" "M + 1 \<le> 11" using M by simp_all
    have "1 \<le> monthStart (M + 1 + 1) L - monthStart (M + 1) L"
      using monthStart_step [OF M1 L] by simp
    then have "getDate (MakeDate (MakeDay Y (M + 1) 1) 0) = 1"
      using fields_of_MakeDate [OF M1, of 1 Y 0] by (simp add: L_def msPerDay_def)
    then show ?thesis using next1 by simp
  qed
  have t: "t = Day t * msPerDay + TimeWithinDay t" by (simp add: Day_TimeWithinDay)
  have r: "0 \<le> TimeWithinDay t" "TimeWithinDay t < msPerDay" by (rule TimeWithinDay_range)+
  have first: "MakeDay Y M 1 = Day t + 1 - DateFromTime t"
    unfolding Y_def M_def by (rule MakeDay_of_time)
  have lastd: "MakeDay Y M n = Day t + n - DateFromTime t"
    unfolding Y_def M_def by (rule MakeDay_of_time)
  have "(Day t + 1 - DateFromTime t) * msPerDay \<le> Day t * msPerDay"
    using D msPerDay_pos by (simp add: mult_right_mono)
  then show "startOfMonth t \<le> t"
    using t r unfolding s first MakeDate_def by linarith
  have "Day t * msPerDay \<le> (Day t + n - DateFromTime t) * msPerDay"
    using D msPerDay_pos by (simp add: mult_right_mono)
  then show "t \<le> endOfMonth t"
    using t r unfolding e lastd MakeDate_def by linarith
qed

lemma leapDays_prev: "leapDays y = 1 \<Longrightarrow> leapDays (y - 1) = 0"
proof -
  assume "leapDays y = 1"
  then have "y mod 4 = 0"
    by (simp add: leapDays_def DaysInYear_def split: if_splits)
  then have "(y - 1) mod 4 \<noteq> 0" by presburger
  then show ?thesis by (simp add: leapDays_def DaysInYear_def)
qed

lemma month_length_indep:
  assumes "0 \<le> m" "m \<le> 11" "m \<noteq> 1"
  shows "monthStart (m + 1) L - monthStart m L = monthStart (m + 1) L' - monthStart m L'"
  using assms(1,2)
  by (cases m rule: month_cases) (use assms(3) in \<open>simp_all add: monthStart_def\<close>)

lemma february_length: "monthStart 2 L - monthStart 1 L = 28 + L"
  by (simp add: monthStart_def)

lemma MakeDay_prev_year_month_end:
  assumes "0 \<le> m" "m \<le> 11"
  shows "MakeDay y (m - 11) 0
         = DayFromYear (y - 1) + monthStart (m + 1) (leapDays (y - 1)) - 1"
proof (cases "m = 11")
  case True
  have "DayFromYear y = DayFromYear (y - 1) + DaysInYear (y - 1)"
    using DayFromYear_Suc [of "y - 1"] by simp
  then show ?thesis
    using True by (simp add: MakeDay_def monthStart_def DaysInYear_leapDays)
next
  case False
  then have b: "0 \<le> m + 1" "m + 1 < 12" using assms by simp_all
  have e: "m - 11 = 12 * (- 1) + (m + 1)" by simp
  have "(m - 11) div 12 = - 1" by (rule int_div_pos_eq [OF e b])
  moreover have "(m - 11) mod 12 = m + 1" by (rule int_mod_pos_eq [OF e b])
  ultimately show ?thesis by (simp add: MakeDay_def Let_def)
qed

lemma subMonths_12:
  "getFullYear (subMonths t 12) = getFullYear t - 1"
  "getMonth (subMonths t 12) = getMonth t"
  "getDate (subMonths t 12) = (if getMonth t = 1 \<and> getDate t = 29 then 28 else getDate t)"
  "TimeWithinDay (subMonths t 12) = TimeWithinDay t"
  "subMonths t 12 < t"
proof -
  define Y M D tw where "Y = YearFromTime t" and "M = MonthFromTime t"
    and "D = DateFromTime t" and "tw = TimeWithinDay t"
  define L L' where "L = leapDays Y" and "L' = leapDays (Y - 1)"
  define n n' where "n = monthStart (M + 1) L - monthStart M L"
    and "n' = monthStart (M + 1) L' - monthStart M L'"
  have M: "0 \<le> M" "M \<le> 11" using MonthFromTime_range [of t] by (simp_all add: M_def)
  have L: "L = 0 \<or> L = 1" "L' = 0 \<or> L' = 1"
    using leapDays_cases [of Y] leapDays_cases [of "Y - 1"] by (simp_all add: L_def L'_def)
  have tw: "0 \<le> tw" "tw < msPerDay" using TimeWithinDay_range [of t] by (simp_all add: tw_def)
  have D: "1 \<le> D" "D \<le> n"
    using DateFromTime_range [of t]
    by (simp_all add: n_def M_def L_def Y_def D_def InLeapYear_def)
  have n': "28 \<le> n'" using monthStart_step [OF M L(2)] by (simp add: n'_def)
  define eom where "eom = setMonth t (getMonth t - 11) 0"
  have a: "subMonths t 12 =
             (if getDate eom \<le> getDate t then eom
              else setFullYear t (getFullYear eom) (getMonth eom) (getDate t))"
    by (simp add: subMonths_def addMonths_def Let_def eom_def)
  have "MakeDay Y (M - 11) 0 = MakeDay (Y - 1) M n'"
    by (simp add: MakeDay_prev_year_month_end [OF M] MakeDay_in_year [OF M] n'_def L'_def)
  then have eom: "eom = MakeDate (MakeDay (Y - 1) M n') tw"
    by (simp add: eom_def setMonth_def getMonth_def Y_def M_def tw_def)
  have fe: "getFullYear eom = Y - 1 \<and> getMonth eom = M \<and> getDate eom = n'
            \<and> TimeWithinDay eom = tw"
    unfolding eom using n' by (intro fields_of_MakeDate M tw) (simp_all add: n'_def L'_def)
  have r: "subMonths t 12 = (if n' \<le> D then eom else MakeDate (MakeDay (Y - 1) M D) tw)"
    unfolding a using fe
    by (simp add: setFullYear_def getDate_def D_def tw_def)
  have fd: "getFullYear (MakeDate (MakeDay (Y - 1) M D) tw) = Y - 1
            \<and> getMonth (MakeDate (MakeDay (Y - 1) M D) tw) = M
            \<and> getDate (MakeDate (MakeDay (Y - 1) M D) tw) = D
            \<and> TimeWithinDay (MakeDate (MakeDay (Y - 1) M D) tw) = tw" if "D < n'"
    using that D by (intro fields_of_MakeDate M tw) (simp_all add: n'_def L'_def)
  show "getFullYear (subMonths t 12) = getFullYear t - 1"
    "getMonth (subMonths t 12) = getMonth t"
    "TimeWithinDay (subMonths t 12) = TimeWithinDay t"
    using fe fd unfolding r
    by (auto simp: getFullYear_def getMonth_def Y_def M_def tw_def)
  have g: "getDate (subMonths t 12) = (if n' \<le> D then n' else D)"
    using fe fd unfolding r by auto
  have "(if n' \<le> D then n' else D) = (if M = 1 \<and> D = 29 then 28 else D)"
  proof (cases "M = 1")
    case True
    have nn: "n = 28 + L" "n' = 28 + L'"
      using True by (simp_all add: n_def n'_def february_length)
    show ?thesis
    proof (cases "D = 29")
      case True
      then have "L = 1" using D nn L by auto
      then have "L' = 0" using leapDays_prev [of Y] by (simp add: L_def L'_def)
      then show ?thesis using \<open>M = 1\<close> True nn by simp
    next
      case False
      then have "D \<le> 28" using D nn L by auto
      then show ?thesis using False nn L by auto
    qed
  next
    case False
    have "n = n'" unfolding n_def n'_def by (rule month_length_indep [OF M False])
    then show ?thesis using False D by auto
  qed
  then show "getDate (subMonths t 12)
             = (if getMonth t = 1 \<and> getDate t = 29 then 28 else getDate t)"
    using g by (simp add: getMonth_def getDate_def M_def D_def)
  define d' where "d' = (if n' \<le> D then n' else D)"
  have sub: "subMonths t 12 = (DayFromYear (Y - 1) + monthStart M L' + d' - 1) * msPerDay + tw"
    unfolding r eom
    by (simp add: MakeDate_def MakeDay_in_year [OF M] d'_def L'_def)
  have "Day t = MakeDay Y M D"
    unfolding Y_def M_def D_def by (simp add: MakeDay_of_time)
  then have day: "Day t = DayFromYear (Y - 1) + 365 + L' + monthStart M L + D - 1"
    using DayFromYear_Suc [of "Y - 1"]
    by (simp add: MakeDay_in_year [OF M] L_def L'_def DaysInYear_leapDays)
  have "monthStart M L' \<le> monthStart M L + 1"
    using L by (auto simp: monthStart_def)
  moreover have "d' \<le> D" by (simp add: d'_def)
  ultimately have "DayFromYear (Y - 1) + monthStart M L' + d' - 1 < Day t"
    using day L by linarith
  then have "(DayFromYear (Y - 1) + monthStart M L' + d' - 1) * msPerDay < Day t * msPerDay"
    using msPerDay_pos by simp
  then show "subMonths t 12 < t"
    using Day_TimeWithinDay [of t] unfolding sub tw_def by linarith
qed

lemma handleViewModeChange_range:
  "dateRange (handleViewModeChange mode today s) =
     (case mode of
        day_mode \<Rightarrow> \<lparr>from' = today, to' = today\<rparr>
      | week_mode \<Rightarrow> \<lparr>from' = startOfWeek today None, to' = endOfWeek today None\<rparr>
      | month_mode \<Rightarrow> \<lparr>from' = startOfMonth today, to' = endOfMonth today\<rparr>
      | all_mode \<Rightarrow> \<lparr>from' = subMonths today 12, to' = today\<rparr>)"
  by (cases mode) (simp_all add: handleViewModeChange_def)

lemma handleViewModeChange_r_range:
  "dateRange_r (handleViewModeChange_r mode today s') =
     dateRange (handleViewModeChange mode today s)"
  by (cases mode) (simp_all add: handleViewModeChange_def handleViewModeChange_r_def)

text \<open>
  C3. As stated, the claim fails in its week scenario: on Wednesday 6 March 2024, 09:00,
  the range of "week" is Sunday 3 March 00:00:00.000 to Saturday 9 March 23:59:59.999,
  not Monday to Sunday.
\<close>

theorem week_range_counterexample:
  "getDay 1709715600000 = 3
   \<and> dateRange (handleViewModeChange week_mode 1709715600000 (stateOf []))
       = \<lparr>from' = 1709424000000, to' = 1710028799999\<rparr>
   \<and> getDay 1709424000000 = 0 \<and> getDay 1710028799999 = 6
   \<and> getDay 1709424000000 \<noteq> 1 \<and> getDay 1710028799999 \<noteq> 0"
proof -
  have d: "Day 1709715600000 = 19788" by (simp add: Day_def msPerDay_def)
  have w: "getDay 1709715600000 = 3" by (simp add: getDay_def WeekDay_def d)
  have s: "startOfWeek 1709715600000 None = 1709424000000"
    by (simp add: startOfWeek_default d w MakeDate_def msPerDay_def)
  have e: "endOfWeek 1709715600000 None = 1710028799999"
    by (simp add: endOfWeek_default d w MakeDate_def msPerDay_def)
  have g: "getDay 1709424000000 = 0" "getDay 1710028799999 = 6"
    by (simp_all add: getDay_def WeekDay_def Day_def msPerDay_def)
  show ?thesis
    using w g by (simp add: handleViewModeChange_range s e)
qed

text \<open>
  C3, amended. For every instant \<open>today\<close>: "day" gives [today, today]; "week" gives the
  week that contains today and starts on Sunday, from that Sunday's midnight to the
  last millisecond of the Saturday, seven days later less one millisecond; "month" gives
  the first day of today's month at midnight to the last millisecond of that month (the
  next millisecond is the first of a month); "all" gives [today minus 12 months, today],
  the start being the same day, month and time of day one year earlier, with 29 February
  moved to 28 February. The view mode is stored, and tmp.tsx computes the same range.
\<close>

theorem handleViewModeChange_ranges:
  "dateRange (handleViewModeChange day_mode today s) = \<lparr>from' = today, to' = today\<rparr>
   \<and> getDay (from' (dateRange (handleViewModeChange week_mode today s))) = 0
   \<and> TimeWithinDay (from' (dateRange (handleViewModeChange week_mode today s))) = 0
   \<and> to' (dateRange (handleViewModeChange week_mode today s))
       = from' (dateRange (handleViewModeChange week_mode today s)) + 7 * msPerDay - 1
   \<and> from' (dateRange (handleViewModeChange week_mode today s)) \<le> today
   \<and> today \<le> to' (dateRange (handleViewModeChange week_mode today s))
   \<and> getFullYear (from' (dateRange (handleViewModeChange month_mode today s)))
       = getFullYear today
   \<and> getMonth (from' (dateRange (handleViewModeChange month_mode today s))) = getMonth today
   \<and> getDate (from' (dateRange (handleViewModeChange month_mode today s))) = 1
   \<and> TimeWithinDay (from' (dateRange (handleViewModeChange month_mode today s))) = 0
   \<and> getFullYear (to' (dateRange (handleViewModeChange month_mode today s)))
       = getFullYear today
   \<and> getMonth (to' (dateRange (handleViewModeChange month_mode today s))) = getMonth today
   \<and> TimeWithinDay (to' (dateRange (handleViewModeChange month_mode today s)))
       = msPerDay - 1
   \<and> getDate (to' (dateRange (handleViewModeChange month_mode today s)) + 1) = 1
   \<and> from' (dateRange (handleViewModeChange month_mode today s)) \<le> today
   \<and> today \<le> to' (dateRange (handleViewModeChange month_mode today s))
   \<and> getFullYear (from' (dateRange (handleViewModeChange all_mode today s)))
       = getFullYear today - 1
   \<and> getMonth (from' (dateRange (handleViewModeChange all_mode today s))) = getMonth today
   \<and> getDate (from' (dateRange (handleViewModeChange all_mode today s)))
       = (if getMonth today = 1 \<and> getDate today = 29 then 28 else getDate today)
   \<and> TimeWithinDay (from' (dateRange (handleViewModeChange all_mode today s)))
       = TimeWithinDay today
   \<and> to' (dateRange (handleViewModeChange all_mode today s)) = today
   \<and> viewMode (handleViewModeChange mode today s) = mode
   \<and> dateRange_r (handleViewModeChange_r mode today s')
       = dateRange (handleViewModeChange mode today s)
   \<and> viewMode_r (handleViewModeChange_r mode today s') = mode"
proof -
  have v: "viewMode (handleViewModeChange mode today s) = mode"
    "viewMode_r (handleViewModeChange_r mode today s') = mode"
    by (cases mode; simp add: handleViewModeChange_def handleViewModeChange_r_def)+
  show ?thesis
    unfolding handleViewModeChange_r_range [of mode today s' s]
    using week_range [of today] month_range [of today] subMonths_12 [of today] v
    by (simp add: handleViewModeChange_range)
qed

lemma fields_20240306:
  "YearFromTime 1709715600000 = 2024" "MonthFromTime 1709715600000 = 2"
  "DateFromTime 1709715600000 = 6" "TimeWithinDay 1709715600000 = 32400000"
proof -
  have d: "Day 1709715600000 = 19788" by (simp add: Day_def msPerDay_def)
  show y: "YearFromTime 1709715600000 = 2024"
    by (simp add: YearFromTime_def d yearFromDay_def)
  have l: "InLeapYear 1709715600000 = 1"
    by (simp add: InLeapYear_def y leapDays_def DaysInYear_def)
  have w: "DayWithinYear 1709715600000 = 65"
    by (simp add: DayWithinYear_def d y DayFromYear_def)
  show m: "MonthFromTime 1709715600000 = 2"
    by (simp add: MonthFromTime_def w l monthOfYearDay_def)
  show "DateFromTime 1709715600000 = 6"
    by (simp add: DateFromTime_def w l m monthStart_def)
  show "TimeWithinDay 1709715600000 = 32400000"
    by (simp add: TimeWithinDay_def msPerDay_def)
qed

theorem handleViewModeChange_ranges_witness:
  "dateRange (handleViewModeChange day_mode 1709715600000 (stateOf []))
     = \<lparr>from' = 1709715600000, to' = 1709715600000\<rparr>
   \<and> dateRange (handleViewModeChange week_mode 1709715600000 (stateOf []))
     = \<lparr>from' = 1709424000000, to' = 1710028799999\<rparr>
   \<and> dateRange (handleViewModeChange month_mode 1709715600000 (stateOf []))
     = \<lparr>from' = 1709251200000, to' = 1711929599999\<rparr>
   \<and> dateRange (handleViewModeChange all_mode 1709715600000 (stateOf []))
     = \<lparr>from' = 1678093200000, to' = 1709715600000\<rparr>
   \<and> getDate (from' (dateRange (handleViewModeChange month_mode 1709715600000 (stateOf []))))
     = 1
   \<and> getFullYear (from' (dateRange (handleViewModeChange all_mode 1709715600000 (stateOf []))))
     = 2023"
proof -
  note f = fields_20240306
  have d: "Day 1709715600000 = 19788" by (simp add: Day_def msPerDay_def)
  have w: "getDay 1709715600000 = 3" by (simp add: getDay_def WeekDay_def d)
  have sw: "startOfWeek 1709715600000 None = 1709424000000"
    by (simp add: startOfWeek_default d w MakeDate_def msPerDay_def)
  have ew: "endOfWeek 1709715600000 None = 1710028799999"
    by (simp add: endOfWeek_default d w MakeDate_def msPerDay_def)
  have l: "leapDays 2024 = 1" "leapDays 2023 = 0"
    by (simp_all add: leapDays_def DaysInYear_def)
  have sm: "startOfMonth 1709715600000 = 1709251200000"
    by (simp add: startOfMonth_eq f MakeDay_def DayFromYear_def monthStart_def l
        MakeDate_def msPerDay_def)
  have em: "endOfMonth 1709715600000 = 1711929599999"
    by (simp add: endOfMonth_eq f MakeDay_def DayFromYear_def monthStart_def l
        MakeDate_def msPerDay_def)
  have eom: "setMonth 1709715600000 (- 9) 0 = 1680253200000"
    by (simp add: setMonth_def f MakeDay_def DayFromYear_def monthStart_def l
        MakeDate_def msPerDay_def)
  have deom: "getDate 1680253200000 = 31 \<and> getFullYear 1680253200000 = 2023
              \<and> getMonth 1680253200000 = 2"
  proof -
    have d': "Day 1680253200000 = 19447" by (simp add: Day_def msPerDay_def)
    have y': "YearFromTime 1680253200000 = 2023"
      by (simp add: YearFromTime_def d' yearFromDay_def)
    have l': "InLeapYear 1680253200000 = 0" by (simp add: InLeapYear_def y' l)
    have w': "DayWithinYear 1680253200000 = 89"
      by (simp add: DayWithinYear_def d' y' DayFromYear_def)
    have m': "MonthFromTime 1680253200000 = 2"
      by (simp add: MonthFromTime_def w' l' monthOfYearDay_def)
    have "DateFromTime 1680253200000 = 31"
      by (simp add: DateFromTime_def w' l' m' monthStart_def)
    then show ?thesis by (simp add: getDate_def getFullYear_def getMonth_def y' m')
  qed
  have sub: "subMonths 1709715600000 12 = 1678093200000"
    using deom
    by (simp add: subMonths_def addMonths_def Let_def getMonth_def getDate_def f eom
        setFullYear_def MakeDay_def DayFromYear_def monthStart_def l MakeDate_def
        msPerDay_def)
  have r: "dateRange (handleViewModeChange day_mode 1709715600000 (stateOf []))
             = \<lparr>from' = 1709715600000, to' = 1709715600000\<rparr>"
    "dateRange (handleViewModeChange week_mode 1709715600000 (stateOf []))
             = \<lparr>from' = 1709424000000, to' = 1710028799999\<rparr>"
    "dateRange (handleViewModeChange month_mode 1709715600000 (stateOf []))
             = \<lparr>from' = 1709251200000, to' = 1711929599999\<rparr>"
    "dateRange (handleViewModeChange all_mode 1709715600000 (stateOf []))
             = \<lparr>from' = 1678093200000, to' = 1709715600000\<rparr>"
    by (simp_all add: handleViewModeChange_range sw ew sm em sub)
  from handleViewModeChange_ranges [of 1709715600000 "stateOf []" day_mode]
  have "getDate (from' (dateRange (handleViewModeChange month_mode 1709715600000
                   (stateOf [])))) = 1
        \<and> getFullYear (from' (dateRange (handleViewModeChange all_mode 1709715600000
                   (stateOf [])))) = getFullYear 1709715600000 - 1"
    by blast
  then show ?thesis using r by (simp add: getFullYear_def f)
qed

section \<open>The API route's answers\<close>

text \<open>
  C8. For every request whose method is not PUT, the route answers 405 with the header
  \<^verbatim>\<open>Allow: PUT\<close> and the text "Method ... Not Allowed", and makes no request upstream.
\<close>

theorem handler_method_not_allowed:
  assumes "reqMethod req \<noteq> ''PUT''"
  shows "resStatus (res (handler API_BASE_URL upstream req)) = 405
       \<and> resHeaders (res (handler API_BASE_URL upstream req)) = [(''Allow'', [''PUT''])]
       \<and> resBody (res (handler API_BASE_URL upstream req))
           = EndText (''Method '' @ reqMethod req @ '' Not Allowed'')
       \<and> upstreamCalls (handler API_BASE_URL upstream req) = []"
  using assms by (simp add: handler_def)

theorem handler_method_not_allowed_witness:
  "reqMethod \<lparr>reqMethod = ''GET'', reqBody = JNull\<rparr> \<noteq> ''PUT''
   \<and> handler ''http://upstream'' (\<lambda>_. Rejects) \<lparr>reqMethod = ''GET'', reqBody = JNull\<rparr>
       = \<lparr>res = \<lparr>resStatus = 405, resHeaders = [(''Allow'', [''PUT''])],
                       resBody = EndText ''Method GET Not Allowed''\<rparr>,
          upstreamCalls = [], errorLog = []\<rparr>"
  using handler_method_not_allowed
          [of "\<lparr>reqMethod = ''GET'', reqBody = JNull\<rparr>" "''http://upstream''" "\<lambda>_. Rejects"]
  by (simp add: handler_def)

lemma handler_put_cases:
  assumes "reqMethod req = ''PUT''"
  shows "handler API_BASE_URL upstream req =
     \<lparr>res =
        (case upstream (upstreamCall API_BASE_URL req) of
           Rejects \<Rightarrow> serverError
         | Resolves r \<Rightarrow>
             if \<not> ok r then serverError
             else if isJsonContentType (contentType r)
               then (case jsonBody r of None \<Rightarrow> serverError | Some data \<Rightarrow> relay data)
             else (case textBody r of
                     None \<Rightarrow> serverError
                   | Some text \<Rightarrow> relay (JObject [(''message'', JString text)]))),
      upstreamCalls = [upstreamCall API_BASE_URL req],
      errorLog =
        (case upstream (upstreamCall API_BASE_URL req) of
           Rejects \<Rightarrow> [''Error updating attendance:'']
         | Resolves r \<Rightarrow>
             if \<not> ok r then [''Error updating attendance:'']
             else if isJsonContentType (contentType r)
               then (case jsonBody r of None \<Rightarrow> [''Error updating attendance:''] | Some data \<Rightarrow> [])
             else (case textBody r of
                     None \<Rightarrow> [''Error updating attendance:'']
                   | Some text \<Rightarrow> []))\<rparr>"
  using assms
  by (simp add: handler_def upstreamCall_def serverError_def relay_def Let_def
      split: FetchOutcome.split option.split)

text \<open>
  C9. For every PUT request the route makes exactly one request upstream, a PUT to
  \<^verbatim>\<open>API_BASE_URL/attendance\<close> whose body is the serialised request body. When the
  upstream call throws (the fetch rejects, or reading the body of an ok reply does) or
  the reply is not ok, whatever its status, the answer is the fixed 500 answer;
  otherwise the answer is 200 with the upstream JSON, or with the upstream text wrapped
  as \<^verbatim>\<open>{ message: text }\<close>. Two replies that are not ok give the same result: 4xx and
  5xx are not told apart.
\<close>

theorem handler_put:
  assumes "reqMethod req = ''PUT''"
  shows "upstreamCalls (handler API_BASE_URL upstream req) = [upstreamCall API_BASE_URL req]
       \<and> (upstream (upstreamCall API_BASE_URL req) = Rejects \<longrightarrow>
            res (handler API_BASE_URL upstream req) = serverError)
       \<and> (\<forall>r. upstream (upstreamCall API_BASE_URL req) = Resolves r \<and> \<not> ok r \<longrightarrow>
            res (handler API_BASE_URL upstream req) = serverError)
       \<and> (\<forall>r data. upstream (upstreamCall API_BASE_URL req) = Resolves r \<and> ok r
              \<and> isJsonContentType (contentType r) \<and> jsonBody r = Some data \<longrightarrow>
            res (handler API_BASE_URL upstream req) = relay data)
       \<and> (\<forall>r text. upstream (upstreamCall API_BASE_URL req) = Resolves r \<and> ok r
              \<and> \<not> isJsonContentType (contentType r) \<and> textBody r = Some text \<longrightarrow>
            res (handler API_BASE_URL upstream req)
            = relay (JObject [(''message'', JString text)]))
       \<and> (\<forall>r. upstream (upstreamCall API_BASE_URL req) = Resolves r \<and> ok r
              \<and> (if isJsonContentType (contentType r) then jsonBody r = None
                  else textBody r = None) \<longrightarrow>
            res (handler API_BASE_URL upstream req) = serverError)
       \<and> (resStatus (res (handler API_BASE_URL upstream req)) = 200
            \<or> res (handler API_BASE_URL upstream req) = serverError)
       \<and> (\<forall>r r'. \<not> ok r \<and> \<not> ok r' \<longrightarrow>
            handler API_BASE_URL (\<lambda>_. Resolves r) req
            = handler API_BASE_URL (\<lambda>_. Resolves r') req)"
  unfolding handler_put_cases [OF assms]
  by (auto simp: relay_def split: FetchOutcome.split option.split)

theorem handler_put_witness:
  "reqMethod \<lparr>reqMethod = ''PUT'', reqBody = medicalLeave\<rparr> = ''PUT''
   \<and> upstreamCalls (handler ''http://upstream'' (\<lambda>_. Rejects)
        \<lparr>reqMethod = ''PUT'', reqBody = medicalLeave\<rparr>)
       = [\<lparr>url = ''http://upstream/attendance'', httpMethod = ''PUT'',
           headers = [(''Content-Type'', ''application/json'')],
           body = Some (stringify medicalLeave)\<rparr>]
   \<and> res (handler ''http://upstream'' (\<lambda>_. Rejects)
        \<lparr>reqMethod = ''PUT'', reqBody = medicalLeave\<rparr>) = serverError
   \<and> \<not> ok \<lparr>statusCode = 404, contentType = Some ''application/json'',
            jsonBody = Some JNull, textBody = Some ''null''\<rparr>
   \<and> res (handler ''http://upstream'' (upstreamReply 404 ''application/json'' (Some JNull) ''null'')
        \<lparr>reqMethod = ''PUT'', reqBody = medicalLeave\<rparr>) = serverError
   \<and> res (handler ''http://upstream'' (upstreamReply 503 ''text/html'' None ''Unavailable'')
        \<lparr>reqMethod = ''PUT'', reqBody = medicalLeave\<rparr>) = serverError
   \<and> res (handler ''http://upstream''
        (upstreamReply 200 ''application/json; charset=utf-8'' (Some medicalLeave) '''')
        \<lparr>reqMethod = ''PUT'', reqBody = medicalLeave\<rparr>) = relay medicalLeave
   \<and> res (handler ''http://upstream'' (upstreamReply 200 ''text/plain'' None ''updated'')
        \<lparr>reqMethod = ''PUT'', reqBody = medicalLeave\<rparr>)
       = relay (JObject [(''message'', JString ''updated'')])
   \<and> res (handler ''http://upstream'' (upstreamReply 200 ''application/json'' None ''<html>'')
        \<lparr>reqMethod = ''PUT'', reqBody = medicalLeave\<rparr>) = serverError"
  using handler_put [of "\<lparr>reqMethod = ''PUT'', reqBody = medicalLeave\<rparr>" "''http://upstream''"
          "\<lambda>_. Rejects"]
    handler_put [of "\<lparr>reqMethod = ''PUT'', reqBody = medicalLeave\<rparr>" "''http://upstream''"
          "upstreamReply 404 ''application/json'' (Some JNull) ''null''"]
  by (simp add: handler_def upstreamReply_def ok_def isJsonContentType_def serverError_def
      relay_def Let_def)

section \<open>Loading the records in tmp.tsx\<close>

lemma Promise_all_rejects:
  "(\<exists>e. Promise_all ps = Inl e) \<longleftrightarrow> (\<exists>p \<in> set ps. isl p)"
proof (induction ps)
  case Nil
  show ?case by simp
next
  case (Cons p ps)
  show ?case
  proof (cases p)
    case (Inl e)
    then show ?thesis by simp
  next
    case (Inr x)
    then show ?thesis using Cons.IH by (auto split: sum.splits)
  qed
qed

lemma Promise_all_resolves:
  "\<forall>p \<in> set ps. \<not> isl p \<Longrightarrow> Promise_all ps = Inr (map projr ps)"
proof (induction ps)
  case Nil
  show ?case by simp
next
  case (Cons p ps)
  then obtain x where "p = Inr x" by (cases p) auto
  then show ?case using Cons by simp
qed

lemma Object_assign_foldl:
  "foldl (\<lambda>target (k, v). target(k \<mapsto> v)) m (map (\<lambda>e. (g e, f (g e))) es) k
   = (if k \<in> g ` set es then Some (f k) else m k)"
  by (induction es arbitrary: m) auto

lemma Object_assign_same_source:
  "Object_assign (map (\<lambda>e. (g e, f (g e))) es) k
   = (if k \<in> g ` set es then Some (f k) else None)"
  by (simp add: Object_assign_def Object_assign_foldl)

lemma recordsPromise_id: "recordsPromise i reply = Inr (j, records) \<Longrightarrow> j = i"
  by (auto simp: recordsPromise_def split: RecordsReply.splits if_splits option.splits)

text \<open>
  C2. As stated, the claim fails: \<^verbatim>\<open>Promise.all\<close> rejects when one request fails, and
  \<^verbatim>\<open>setAttendanceData\<close> is then not reached. With two employees, the request for
  employee 1 answered 500 and the one for employee 2 answered with a record: after the
  load employee 2 has no records in the mapping, and records employee 1 had before the
  load are still there.
\<close>

theorem fetchAttendanceData_r_counterexample:
  "isl (recordsOf firstFails (remoteState Map.empty) 1)
   \<and> recordsOf firstFails (remoteState Map.empty) 2 = Inr (2, [officialLeave])
   \<and> attendanceData_r (fetchAttendanceData_r firstFails (remoteState Map.empty)) 2 = None
   \<and> attendanceData_r
        (fetchAttendanceData_r firstFails (remoteState [1 \<mapsto> [presentOld]])) 1
       = Some [presentOld]"
  by (simp add: recordsOf_def recordsPromise_def firstFails_def remoteState_def
      fetchAttendanceData_r_def Let_def)

text \<open>
  C2, amended. The load is all or nothing. If the request of some employee fails, the
  attendance mapping after the load is the mapping before it, one error is logged and
  the page stops loading; no record fetched for another employee is stored. If no
  request fails, the mapping holds, for each employee, the records fetched for that
  employee, and nothing else.
\<close>

theorem fetchAttendanceData_r_all_or_nothing:
  "((\<exists>e \<in> set (employees_r s). isl (recordsOf net s (id_r e))) \<longrightarrow>
      attendanceData_r (fetchAttendanceData_r net s) = attendanceData_r s
      \<and> isLoading_r (fetchAttendanceData_r net s) = False
      \<and> length (consoleErrors (fetchAttendanceData_r net s)) = length (consoleErrors s) + 1)
   \<and> ((\<forall>e \<in> set (employees_r s). \<not> isl (recordsOf net s (id_r e))) \<longrightarrow>
      (\<forall>k. attendanceData_r (fetchAttendanceData_r net s) k
           = (if k \<in> id_r ` set (employees_r s) then Some (snd (projr (recordsOf net s k)))
              else None))
      \<and> isLoading_r (fetchAttendanceData_r net s) = False
      \<and> consoleErrors (fetchAttendanceData_r net s) = consoleErrors s)"
proof -
  define ps where "ps = map (\<lambda>e. recordsOf net s (id_r e)) (employees_r s)"
  have f: "fetchAttendanceData_r net s =
             (case Promise_all ps of
                Inr results \<Rightarrow>
                  s\<lparr>isLoading_r := True, attendanceData_r := Object_assign results,
                    isLoading_r := False\<rparr>
              | Inl err \<Rightarrow>
                  s\<lparr>isLoading_r := True,
                    consoleErrors := consoleErrors s @ [''Error fetching attendance data: '' @ err],
                    isLoading_r := False\<rparr>)"
    by (simp add: fetchAttendanceData_r_def ps_def recordsOf_def Let_def split: sum.split)
  have a: ?thesis if "\<exists>e \<in> set (employees_r s). isl (recordsOf net s (id_r e))"
  proof -
    from that have "\<exists>p \<in> set ps. isl p" by (auto simp: ps_def)
    then obtain err where "Promise_all ps = Inl err"
      using Promise_all_rejects [of ps] by blast
    then show ?thesis using that by (simp add: f)
  qed
  have b: ?thesis if none: "\<forall>e \<in> set (employees_r s). \<not> isl (recordsOf net s (id_r e))"
  proof -
    from none have "\<forall>p \<in> set ps. \<not> isl p" by (auto simp: ps_def)
    then have all: "Promise_all ps = Inr (map projr ps)"
      by (rule Promise_all_resolves)
    have "projr (recordsOf net s (id_r e)) = (id_r e, snd (projr (recordsOf net s (id_r e))))"
      if "e \<in> set (employees_r s)" for e
    proof -
      from none that obtain j records where r: "recordsOf net s (id_r e) = Inr (j, records)"
        by (cases "recordsOf net s (id_r e)") auto
      then have "j = id_r e" unfolding recordsOf_def by (rule recordsPromise_id)
      then show ?thesis using r by simp
    qed
    then have "map projr ps
               = map (\<lambda>e. (id_r e, snd (projr (recordsOf net s (id_r e))))) (employees_r s)"
      by (simp add: ps_def)
    then have "Object_assign (map projr ps) k
               = (if k \<in> id_r ` set (employees_r s)
                  then Some (snd (projr (recordsOf net s k))) else None)" for k
      using Object_assign_same_source
              [of id_r "\<lambda>k. snd (projr (recordsOf net s k))" "employees_r s" k]
      by simp
    then show ?thesis using none by (simp add: f all)
  qed
  show ?thesis using a b by blast
qed

theorem fetchAttendanceData_r_all_or_nothing_witness:
  "(\<exists>e \<in> set (employees_r (remoteState [1 \<mapsto> [presentOld]])).
      isl (recordsOf firstFails (remoteState [1 \<mapsto> [presentOld]]) (id_r e)))
   \<and> attendanceData_r (fetchAttendanceData_r firstFails (remoteState [1 \<mapsto> [presentOld]]))
       = [1 \<mapsto> [presentOld]]
   \<and> consoleErrors (fetchAttendanceData_r firstFails (remoteState [1 \<mapsto> [presentOld]]))
       = [''Error fetching attendance data: Error: Failed to fetch attendance data'']
   \<and> list_all (\<lambda>e. \<not> isl (recordsOf allSucceed (remoteState Map.empty) (id_r e)))
        (employees_r (remoteState Map.empty))
   \<and> attendanceData_r (fetchAttendanceData_r allSucceed (remoteState Map.empty)) 1
       = Some [presentOld]
   \<and> attendanceData_r (fetchAttendanceData_r allSucceed (remoteState Map.empty)) 2
       = Some [officialLeave]
   \<and> attendanceData_r (fetchAttendanceData_r allSucceed (remoteState Map.empty)) 3 = None"
proof -
  have fails: "\<exists>e \<in> set (employees_r (remoteState [1 \<mapsto> [presentOld]])).
      isl (recordsOf firstFails (remoteState [1 \<mapsto> [presentOld]]) (id_r e))"
    by (simp add: remoteState_def recordsOf_def recordsPromise_def firstFails_def)
  have kept: "attendanceData_r
                (fetchAttendanceData_r firstFails (remoteState [1 \<mapsto> [presentOld]]))
              = [1 \<mapsto> [presentOld]]"
  proof -
    have "attendanceData_r
            (fetchAttendanceData_r firstFails (remoteState [1 \<mapsto> [presentOld]]))
          = attendanceData_r (remoteState [1 \<mapsto> [presentOld]])"
      using fetchAttendanceData_r_all_or_nothing
              [of "remoteState [1 \<mapsto> [presentOld]]" firstFails] fails
      by blast
    then show ?thesis by (simp add: remoteState_def)
  qed
  have logged: "consoleErrors
                  (fetchAttendanceData_r firstFails (remoteState [1 \<mapsto> [presentOld]]))
       = [''Error fetching attendance data: Error: Failed to fetch attendance data'']"
    by (simp add: recordsPromise_def firstFails_def remoteState_def
        fetchAttendanceData_r_def Let_def)
  have good: "\<forall>e \<in> set (employees_r (remoteState Map.empty)).
      \<not> isl (recordsOf allSucceed (remoteState Map.empty) (id_r e))"
    by (simp add: remoteState_def recordsOf_def recordsPromise_def allSucceed_def)
  have merged: "attendanceData_r (fetchAttendanceData_r allSucceed (remoteState Map.empty)) k
       = (if k \<in> id_r ` set (employees_r (remoteState Map.empty))
          then Some (snd (projr (recordsOf allSucceed (remoteState Map.empty) k)))
          else None)" for k
    using fetchAttendanceData_r_all_or_nothing [of "remoteState Map.empty" allSucceed] good
    by blast
  show ?thesis
    using fails kept logged good merged [of 1] merged [of 2] merged [of 3]
    by (simp add: list_all_iff remoteState_def recordsOf_def recordsPromise_def
        allSucceed_def)
qed

section \<open>Committing an edit in tmp.tsx\<close>

lemma stringify_edit:
  \<open>stringify (JObject [(''userId'', JNumber employeeId),
                        (''attendanceDate'', JString attDate),
                        (''status'', JString st),
                        (''comment'', JString cm),
                        (''time'', JString tm)])
   = ''{"userId":'' @ showInt employeeId
     @ '',"attendanceDate":'' @ quoteJSON attDate
     @ '',"status":'' @ quoteJSON st
     @ '',"comment":'' @ quoteJSON cm
     @ '',"time":'' @ quoteJSON tm @ ''}''\<close>
  by (simp add: quoteJSON_def quoteChar_def)

text \<open>
  C7. With an edit session open (an employee id other than 0 and a date), \<^verbatim>\<open>saveEdit\<close>
  sends exactly one request, a PUT to \<^verbatim>\<open>/api/attendance\<close> with content type
  \<^verbatim>\<open>application/json\<close>, whose body is the object with \<^verbatim>\<open>userId\<close>, \<^verbatim>\<open>attendanceDate\<close>,
  \<^verbatim>\<open>status\<close>, \<^verbatim>\<open>comment\<close> and \<^verbatim>\<open>time\<close>, in this order. For employee 2, date
  2024-03-05, status OFFICIAL_LEAVE, comment "medical" and no time, the body is the
  text of the scenario. When the route's reply is ok and its body is JSON, the new state
  is the state after \<^verbatim>\<open>fetchAttendanceData\<close> for the current range, with the edit session
  reset.
\<close>

theorem saveEdit_r_submits:
  assumes \<open>editEmployeeId_r s = Some employeeId\<close> and \<open>employeeId \<noteq> 0\<close>
    and \<open>editDate_r s = Some attDate\<close> and \<open>attDate \<noteq> []\<close>
  shows \<open>sent (saveEdit_r proxy net s)
           = [\<lparr>url = ''/api/attendance'', httpMethod = ''PUT'',
               headers = [(''Content-Type'', ''application/json'')],
               body = Some (''{"userId":'' @ showInt employeeId
                 @ '',"attendanceDate":'' @ quoteJSON attDate
                 @ '',"status":'' @ quoteJSON (statusString (editStatus_r s))
                 @ '',"comment":'' @ quoteJSON (editComment s)
                 @ '',"time":'' @ quoteJSON (editTime s) @ ''}'')\<rparr>]
       \<and> (employeeId = 2 \<and> attDate = ''2024-03-05'' \<and> editStatus_r s = OFFICIAL_LEAVE
            \<and> editComment s = ''medical'' \<and> editTime s = [] \<longrightarrow>
          map body (sent (saveEdit_r proxy net s))
          = [Some ''{"userId":2,"attendanceDate":"2024-03-05","status":"OFFICIAL_LEAVE","comment":"medical","time":""}''])
       \<and> (\<forall>response data.
             proxy (hd (sent (saveEdit_r proxy net s))) = Resolves response
             \<and> ok response \<and> jsonBody response = Some data \<longrightarrow>
             state (saveEdit_r proxy net s)
             = (fetchAttendanceData_r net s)
                 \<lparr>editEmployeeId_r := None, editDate_r := None, editStatus_r := PRESENT,
                  editTime := [], editComment := []\<rparr>)\<close>
proof -
  define request where
    "request = \<lparr>url = ''/api/attendance'', httpMethod = ''PUT'',
                 headers = [(''Content-Type'', ''application/json'')],
                 body = Some (stringify (JObject
                   [(''userId'', JNumber employeeId),
                    (''attendanceDate'', JString attDate),
                    (''status'', JString (statusString (editStatus_r s))),
                    (''comment'', JString (editComment s)),
                    (''time'', JString (editTime s))]))\<rparr>"
  have run: "saveEdit_r proxy net s =
     (case proxy request of
        Rejects \<Rightarrow> \<lparr>state = saveFailed s ''TypeError: fetch failed'', sent = [request]\<rparr>
      | Resolves response \<Rightarrow>
          if \<not> ok response then
            (case textBody response of
               None \<Rightarrow> \<lparr>state = saveFailed s ''TypeError'', sent = [request]\<rparr>
             | Some errorText \<Rightarrow>
                 \<lparr>state = saveFailed s
                    (''Error: HTTP error! status: '' @ showInt (int (statusCode response))
                     @ '', message: '' @ errorText),
                  sent = [request]\<rparr>)
          else
            (case jsonBody response of
               None \<Rightarrow> \<lparr>state = saveFailed s ''SyntaxError'', sent = [request]\<rparr>
             | Some data \<Rightarrow>
                 \<lparr>state = (fetchAttendanceData_r net s)
                    \<lparr>editEmployeeId_r := None, editDate_r := None,
                     editStatus_r := PRESENT, editTime := [], editComment := []\<rparr>,
                  sent = [request]\<rparr>))"
    using assms
    by (simp add: saveEdit_r_def request_def Let_def del: stringify.simps
        split: FetchOutcome.split option.split)
  have sent: "sent (saveEdit_r proxy net s) = [request]"
    unfolding run by (simp split: FetchOutcome.split option.split)
  have a: \<open>request
           = \<lparr>url = ''/api/attendance'', httpMethod = ''PUT'',
              headers = [(''Content-Type'', ''application/json'')],
              body = Some (''{"userId":'' @ showInt employeeId
                @ '',"attendanceDate":'' @ quoteJSON attDate
                @ '',"status":'' @ quoteJSON (statusString (editStatus_r s))
                @ '',"comment":'' @ quoteJSON (editComment s)
                @ '',"time":'' @ quoteJSON (editTime s) @ ''}'')\<rparr>\<close>
    unfolding request_def stringify_edit by (rule refl)
  have b: \<open>body request
           = Some ''{"userId":2,"attendanceDate":"2024-03-05","status":"OFFICIAL_LEAVE","comment":"medical","time":""}''\<close>
    if "employeeId = 2" "attDate = ''2024-03-05''" "editStatus_r s = OFFICIAL_LEAVE"
      "editComment s = ''medical''" "editTime s = []"
    unfolding a using that
    by (simp add: showInt_def showNat.simps digitChar_def quoteJSON_def quoteChar_def
        statusString_def)
  have c: "state (saveEdit_r proxy net s)
           = (fetchAttendanceData_r net s)
               \<lparr>editEmployeeId_r := None, editDate_r := None, editStatus_r := PRESENT,
                editTime := [], editComment := []\<rparr>"
    if "proxy request = Resolves response" "ok response" "jsonBody response = Some data"
    for response data
    unfolding run using that by simp
  show ?thesis
    unfolding sent using a b c by auto
qed

theorem saveEdit_r_submits_witness:
  \<open>editEmployeeId_r editingLeave = Some 2 \<and> (2::int) \<noteq> 0
   \<and> editDate_r editingLeave = Some ''2024-03-05'' \<and> ''2024-03-05'' \<noteq> []
   \<and> editStatus_r editingLeave = OFFICIAL_LEAVE \<and> editComment editingLeave = ''medical''
   \<and> editTime editingLeave = []
   \<and> sent (saveEdit_r proxyOk allSucceed editingLeave)
       = [\<lparr>url = ''/api/attendance'', httpMethod = ''PUT'',
           headers = [(''Content-Type'', ''application/json'')],
           body = Some ''{"userId":2,"attendanceDate":"2024-03-05","status":"OFFICIAL_LEAVE","comment":"medical","time":""}''\<rparr>]
   \<and> ok \<lparr>statusCode = 200, contentType = Some ''application/json'',
          jsonBody = Some (JObject [(''message'', JString ''updated'')]),
          textBody = Some []\<rparr>
   \<and> state (saveEdit_r proxyOk allSucceed editingLeave)
       = (fetchAttendanceData_r allSucceed editingLeave)
           \<lparr>editEmployeeId_r := None, editDate_r := None, editStatus_r := PRESENT,
            editTime := [], editComment := []\<rparr>
   \<and> attendanceData_r (state (saveEdit_r proxyOk allSucceed editingLeave)) 2
       = Some [officialLeave]\<close>
proof -
  have e: "editEmployeeId_r editingLeave = Some 2" "(2::int) \<noteq> 0"
    "editDate_r editingLeave = Some ''2024-03-05''" "''2024-03-05'' \<noteq> []"
    by (simp_all add: editingLeave_def handleEdit_r_def)
  have f: "editStatus_r editingLeave = OFFICIAL_LEAVE" "editComment editingLeave = ''medical''"
    "editTime editingLeave = []"
    by (simp_all add: editingLeave_def handleEdit_r_def)
  note t = saveEdit_r_submits [OF e, of proxyOk allSucceed]
  have okr: "ok \<lparr>statusCode = 200, contentType = Some ''application/json'',
          jsonBody = Some (JObject [(''message'', JString ''updated'')]),
          textBody = Some []\<rparr>"
    by (simp add: ok_def)
  have s1: \<open>sent (saveEdit_r proxyOk allSucceed editingLeave)
       = [\<lparr>url = ''/api/attendance'', httpMethod = ''PUT'',
           headers = [(''Content-Type'', ''application/json'')],
           body = Some ''{"userId":2,"attendanceDate":"2024-03-05","status":"OFFICIAL_LEAVE","comment":"medical","time":""}''\<rparr>]\<close>
    using t f
    by (simp add: showInt_def showNat.simps digitChar_def quoteJSON_def quoteChar_def
        statusString_def)
  have s2: "state (saveEdit_r proxyOk allSucceed editingLeave)
       = (fetchAttendanceData_r allSucceed editingLeave)
           \<lparr>editEmployeeId_r := None, editDate_r := None, editStatus_r := PRESENT,
            editTime := [], editComment := []\<rparr>"
    using t okr by (simp add: proxyOk_def)
  have s3: "attendanceData_r (state (saveEdit_r proxyOk allSucceed editingLeave)) 2
       = Some [officialLeave]"
    unfolding s2
    by (simp add: editingLeave_def handleEdit_r_def remoteState_def fetchAttendanceData_r_def
        recordsPromise_def allSucceed_def Object_assign_def Let_def)
  show ?thesis using e f okr s1 s2 s3 by simp
qed

end
